theory Spec2Isabelle
  imports Complex_Main
begin

section \<open>JavaScript values\<close>

text \<open>
  The values that travel through \<^verbatim>\<open>src/backend/index.js\<close>: what a JSON request body
  carries and what \<^verbatim>\<open>JSON.parse\<close> returns. A number is modelled by its exact value.
\<close>

datatype jsval =
    JNull
  | JBool bool
  | JNum rat
  | JStr string
  | JArr "jsval list"
  | JObj "(string \<times> jsval) list"

text \<open>Truthiness, as \<^verbatim>\<open>x || y\<close> and \<^verbatim>\<open>x ? a : b\<close> test it.\<close>

fun truthy :: "jsval \<Rightarrow> bool" where
  "truthy JNull = False"
| "truthy (JBool b) = b"
| "truthy (JNum n) = (n \<noteq> 0)"
| "truthy (JStr s) = (s \<noteq> [])"
| "truthy (JArr xs) = True"
| "truthy (JObj kvs) = True"

text \<open>
  An identifier as the handlers meet it. The rows that the driver returns carry
  identifiers as numbers (\<open>IdNum n\<close>); a route parameter \<^verbatim>\<open>req.params.id\<close> is always a
  string, and \<open>IdStr n\<close> stands for the string that spells the number \<open>n\<close>.
  A \<^verbatim>\<open>Set\<close> keeps the two apart (SameValueZero); the loose \<^verbatim>\<open>==\<close> and the SQL
  comparison with an integer column convert the string to its number.
\<close>

datatype idval = IdNum int | IdStr int

fun numberOf :: "idval \<Rightarrow> int" where
  "numberOf (IdNum n) = n"
| "numberOf (IdStr n) = n"

definition loose_eq :: "int \<Rightarrow> idval \<Rightarrow> bool" where
  "loose_eq n v = (n = numberOf v)"

definition sql_eq :: "int \<Rightarrow> idval \<Rightarrow> bool" where
  "sql_eq col v = (col = numberOf v)"

text \<open>
  \<^verbatim>\<open>Number.prototype.toString\<close> on a row identifier, an integer: its decimal digits.
\<close>

fun digitsOf :: "nat \<Rightarrow> string" where
  "digitsOf n =
     (if n < 10 then [''0123456789'' ! n]
      else digitsOf (n div 10) @ [''0123456789'' ! (n mod 10)])"

definition toString :: "int \<Rightarrow> string" where
  "toString i = (if i < 0 then CHR ''-'' # digitsOf (nat (- i)) else digitsOf (nat i))"

text \<open>
  The built-ins of the language and the conversion of the store are parameters of the
  model, so that every statement below holds for whatever they compute:
  \<^item> \<open>JSON_parse\<close> is \<^verbatim>\<open>JSON.parse\<close> on a string (\<open>None\<close> when it throws SyntaxError);
  \<^item> \<open>JSON_stringify\<close> is \<^verbatim>\<open>JSON.stringify\<close>;
  \<^item> \<open>Date_toISOString\<close> is \<^verbatim>\<open>new Date(s).toISOString()\<close> (\<open>None\<close> when it throws
    RangeError on an invalid date);
  \<^item> \<open>StringToNumber\<close> is the conversion of a string to a number (\<open>None\<close> is NaN);
  \<^item> \<open>Object_toString\<close> is the string that an array or an object converts to;
  \<^item> \<open>SQL_integer\<close> is what the store makes of a bound value that is not an integer
    number when the column is an integer column (\<open>None\<close> when it rejects the statement).
\<close>

record runtime =
  JSON_parse :: "string \<Rightarrow> jsval option"
  JSON_stringify :: "jsval \<Rightarrow> string"
  Date_toISOString :: "string \<Rightarrow> string option"
  StringToNumber :: "string \<Rightarrow> rat option"
  Object_toString :: "jsval \<Rightarrow> string"
  SQL_integer :: "jsval \<Rightarrow> int option"

text \<open>
  The conversion to a number that the relational operators apply to an operand
  (\<open>None\<close> is NaN), the comparison \<^verbatim>\<open>v > k\<close> against a number, which converts, and the
  comparison \<^verbatim>\<open>v === k\<close> against a number, which does not.
\<close>

fun toNumber :: "runtime \<Rightarrow> jsval \<Rightarrow> rat option" where
  "toNumber rt JNull = Some 0"
| "toNumber rt (JBool b) = Some (if b then 1 else 0)"
| "toNumber rt (JNum x) = Some x"
| "toNumber rt (JStr s) = StringToNumber rt s"
| "toNumber rt (JArr xs) = StringToNumber rt (Object_toString rt (JArr xs))"
| "toNumber rt (JObj kvs) = StringToNumber rt (Object_toString rt (JObj kvs))"

definition jsGreaterThan :: "runtime \<Rightarrow> jsval \<Rightarrow> rat \<Rightarrow> bool" where
  "jsGreaterThan rt v k = (case toNumber rt v of None \<Rightarrow> False | Some x \<Rightarrow> k < x)"

definition strictEq :: "jsval \<Rightarrow> rat \<Rightarrow> bool" where
  "strictEq v k = (v = JNum k)"

text \<open>
  The value that an integer column takes from a bound value: an integer number is stored
  as it is (the column is taken to be wide enough for it), any other value goes through
  the conversion of the store.
\<close>

definition storedInteger :: "runtime \<Rightarrow> jsval \<Rightarrow> int option" where
  "storedInteger rt v =
     (case v of
        JNum x \<Rightarrow> (if of_int \<lfloor>x\<rfloor> = x then Some \<lfloor>x\<rfloor> else SQL_integer rt v)
      | _ \<Rightarrow> SQL_integer rt v)"

section \<open>Rows and the store\<close>

text \<open>
  Modelled from the spec: the tables of the relational store (module \<^verbatim>\<open>./db\<close>, which
  creates them, is not part of the sources). The columns are those the statements in
  \<^verbatim>\<open>index.js\<close> name; \<open>estPrevHours\<close> and \<open>info\<close> are persisted as serialized text.
\<close>

record project =
  id_p :: int
  userID_p :: int
  name_p :: string
  description_p :: string
  startDate_p :: string
  endDate_p :: string
  estHours_p :: rat
  actHours_p :: rat
  wsID_p :: int
  createdAt_p :: string
  modifiedAt_p :: string

record task =
  id_t :: int
  wsID :: int
  userID :: int
  projectID :: int
  name :: string
  description :: string
  taskLevel :: int
  status :: string
  parentID :: int
  level1ID :: int
  level2ID :: int
  level3ID :: int
  level4ID :: int
  assignee1ID :: int
  assignee2ID :: int
  assignee3ID :: int
  estHours :: rat
  estPrevHours :: string
  actHours :: rat
  isExceeded :: int
  priority :: string
  info :: string
  taskType :: string
  dueDate :: "string option"
  comments :: string
  expanded :: int
  createdAt :: string
  modifiedAt :: string

record db =
  projects :: "project list"
  tasks :: "task list"

text \<open>
  Modelled from the spec: the transactional store behind \<^verbatim>\<open>pool.getConnection()\<close>.
  Statements act on the working copy; \<open>commit\<close> publishes it, \<open>rollback\<close> discards it.
  \<open>autoInc\<close> is the next identifier that an INSERT into \<^verbatim>\<open>tasks\<close> generates
  (\<^verbatim>\<open>result.insertId\<close>); the counter is not transactional.
\<close>

record store =
  committed :: db
  working :: db
  autoInc :: int

definition beginTransaction :: "store \<Rightarrow> store" where
  "beginTransaction c = c\<lparr>working := committed c\<rparr>"

definition rollback :: "store \<Rightarrow> store" where
  "rollback c = c\<lparr>working := committed c\<rparr>"

definition commit :: "store \<Rightarrow> store" where
  "commit c = c\<lparr>committed := working c\<rparr>"

text \<open>A response that is not a success: the HTTP status and the \<^verbatim>\<open>error\<close> message.\<close>

datatype error = Error nat string

text \<open>\<^verbatim>\<open>SELECT ... FROM projects WHERE id = ?\<close> and \<^verbatim>\<open>SELECT ... FROM tasks WHERE id = ?\<close>.\<close>

definition selectProjectsById :: "store \<Rightarrow> idval \<Rightarrow> project list" where
  "selectProjectsById c v = filter (\<lambda>p. sql_eq (id_p p) v) (projects (working c))"

definition selectTasksById :: "store \<Rightarrow> idval \<Rightarrow> task list" where
  "selectTasksById c v = filter (\<lambda>t. sql_eq (id_t t) v) (tasks (working c))"

text \<open>\<^verbatim>\<open>SELECT ... FROM tasks WHERE projectID = ?\<close>.\<close>

definition selectTasksByProject :: "store \<Rightarrow> idval \<Rightarrow> task list" where
  "selectTasksByProject c v = filter (\<lambda>t. sql_eq (projectID t) v) (tasks (working c))"

definition setTasks :: "store \<Rightarrow> task list \<Rightarrow> store" where
  "setTasks c ts = c\<lparr>working := (working c)\<lparr>tasks := ts\<rparr>\<rparr>"

definition setProjects :: "store \<Rightarrow> project list \<Rightarrow> store" where
  "setProjects c ps = c\<lparr>working := (working c)\<lparr>projects := ps\<rparr>\<rparr>"

text \<open>
  The four ancestor columns by level: the \<^verbatim>\<open>levelMap\<close> of the DELETE handler
  (lines 585-592); \<open>None\<close> is the \<^verbatim>\<open>undefined\<close> of a level outside 1..4.
\<close>

definition levelMap :: "int \<Rightarrow> (task \<Rightarrow> int) option" where
  "levelMap l =
     (if l = 1 then Some level1ID
      else if l = 2 then Some level2ID
      else if l = 3 then Some level3ID
      else if l = 4 then Some level4ID
      else None)"

section \<open>POST /tasks\<close>

text \<open>
  The request body after the destructuring of lines 286-293. \<open>taskLevel\<close> is the JSON
  value of the request, whatever its type, and keeps its absence (\<open>None\<close>), as
  \<open>parentID\<close> does; the defaults \<open>1\<close> and \<open>0\<close> are applied by the handler. The other
  fields are given with their defaults already applied.
\<close>

record task_body =
  b_description :: string
  b_wsID :: int
  b_userID :: int
  b_projectID :: int
  b_name :: string
  b_taskLevel :: "jsval option"
  b_status :: string
  b_parentID :: "int option"
  b_assignee1ID :: int
  b_assignee2ID :: int
  b_assignee3ID :: int
  b_estHours :: rat
  b_estPrevHours :: jsval
  b_actHours :: rat
  b_isExceeded :: int
  b_info :: jsval
  b_taskType :: string
  b_priority :: string
  b_dueDate :: "string option"
  b_comments :: string

text \<open>Line 288: \<^verbatim>\<open>taskLevel = 1\<close> and \<^verbatim>\<open>parentID = 0\<close>.\<close>

definition bodyLevel :: "task_body \<Rightarrow> jsval" where
  "bodyLevel b = (case b_taskLevel b of None \<Rightarrow> JNum 1 | Some l \<Rightarrow> l)"

definition bodyParent :: "task_body \<Rightarrow> int" where
  "bodyParent b = (case b_parentID b of None \<Rightarrow> 0 | Some p \<Rightarrow> p)"

text \<open>
  Lines 320-323: \<^verbatim>\<open>parent.levelKID || (parent.taskLevel === K ? parent.id : 0)\<close>.
\<close>

definition inherit :: "task \<Rightarrow> int \<Rightarrow> (task \<Rightarrow> int) \<Rightarrow> int" where
  "inherit parent k levelKID =
     (if levelKID parent \<noteq> 0 then levelKID parent
      else if taskLevel parent = k then id_t parent else 0)"

text \<open>
  Lines 303-329: the four ancestor values of the new row, or the 400 response when the
  parent is looked up and not found. Line 306 compares with \<^verbatim>\<open>>\<close>, lines 326-328 with
  \<^verbatim>\<open>===\<close>.
\<close>

definition levelIDs :: "runtime \<Rightarrow> store \<Rightarrow> jsval \<Rightarrow> int \<Rightarrow> error + (int \<times> int \<times> int \<times> int)" where
  "levelIDs rt c taskLevel' parentID' =
     (if jsGreaterThan rt taskLevel' 1 \<and> parentID' \<noteq> 0 then
        (case selectTasksById c (IdNum parentID') of
           [] \<Rightarrow> Inl (Error 400 ''Parent task not found'')
         | parent # _ \<Rightarrow>
             let l1 = inherit parent 1 level1ID;
                 l2 = inherit parent 2 level2ID;
                 l3 = inherit parent 3 level3ID;
                 l4 = inherit parent 4 level4ID
             in if strictEq taskLevel' 2 then Inr (l1, 0, l3, l4)
                else if strictEq taskLevel' 3 then Inr (l1, l2, 0, l4)
                else if strictEq taskLevel' 4 then Inr (l1, l2, l3, 0)
                else Inr (l1, l2, l3, l4))
      else Inr (0, 0, 0, 0))"

text \<open>
  Lines 333-352: the INSERT. The new row takes the generated identifier and, in
  \<open>taskLevel\<close>, the integer \<open>storedLevel\<close> that the column takes from the value of the
  request; the statement throws when the store rejects that value or when the primary key
  is already taken. The column \<open>expanded\<close>, which the statement does not name, takes 0.
\<close>

definition newRow :: "runtime \<Rightarrow> task_body \<Rightarrow> string \<Rightarrow> int \<Rightarrow> int \<Rightarrow> int \<Rightarrow> (int \<times> int \<times> int \<times> int) \<Rightarrow> task" where
  "newRow rt b now newTaskId storedLevel parentID' ls =
     (case ls of (l1, l2, l3, l4) \<Rightarrow>
        \<lparr> id_t = newTaskId, wsID = b_wsID b, userID = b_userID b, projectID = b_projectID b,
          name = b_name b, description = b_description b, taskLevel = storedLevel,
          status = b_status b, parentID = parentID',
          level1ID = l1, level2ID = l2, level3ID = l3, level4ID = l4,
          assignee1ID = b_assignee1ID b, assignee2ID = b_assignee2ID b,
          assignee3ID = b_assignee3ID b,
          estHours = b_estHours b, estPrevHours = JSON_stringify rt (b_estPrevHours b),
          actHours = b_actHours b, isExceeded = b_isExceeded b, priority = b_priority b,
          info = JSON_stringify rt (if truthy (b_info b) then b_info b else JObj []),
          taskType = b_taskType b, dueDate = b_dueDate b, comments = b_comments b,
          expanded = 0, createdAt = now, modifiedAt = now \<rparr>)"

definition insertTask :: "store \<Rightarrow> task \<Rightarrow> store option" where
  "insertTask c row =
     (if id_t row \<in> set (map id_t (tasks (working c))) then None
      else Some ((setTasks c (tasks (working c) @ [row]))\<lparr>autoInc := autoInc c + 1\<rparr>))"

text \<open>
  Lines 355-379: \<^verbatim>\<open>UPDATE tasks SET level<L>ID = ? WHERE id = ?\<close> with the new identifier
  twice, for the level of the new task, compared with \<^verbatim>\<open>===\<close>; no statement for a value
  that is not one of the numbers 1..4.
\<close>

definition patchSelf :: "store \<Rightarrow> jsval \<Rightarrow> int \<Rightarrow> store" where
  "patchSelf c taskLevel' newTaskId =
     (if strictEq taskLevel' 1 then
        setTasks c (map (\<lambda>t. if id_t t = newTaskId then t\<lparr>level1ID := newTaskId\<rparr> else t) (tasks (working c)))
      else if strictEq taskLevel' 2 then
        setTasks c (map (\<lambda>t. if id_t t = newTaskId then t\<lparr>level2ID := newTaskId\<rparr> else t) (tasks (working c)))
      else if strictEq taskLevel' 3 then
        setTasks c (map (\<lambda>t. if id_t t = newTaskId then t\<lparr>level3ID := newTaskId\<rparr> else t) (tasks (working c)))
      else if strictEq taskLevel' 4 then
        setTasks c (map (\<lambda>t. if id_t t = newTaskId then t\<lparr>level4ID := newTaskId\<rparr> else t) (tasks (working c)))
      else c)"

text \<open>
  Lines 282-388 and 408-414: the transaction of the handler. It returns the store and
  either the error response or the row read back (\<^verbatim>\<open>newTask[0]\<close>), which the handler
  then formats (\<open>createTask_response\<close> below).
\<close>

definition createTask :: "runtime \<Rightarrow> string \<Rightarrow> store \<Rightarrow> task_body \<Rightarrow> store \<times> (error + task)" where
  "createTask rt now c0 b =
     (let c = beginTransaction c0;
          taskLevel' = bodyLevel b;
          parentID' = bodyParent b
      in if selectProjectsById c (IdNum (b_projectID b)) = [] then
           (rollback c, Inl (Error 404 ''Project not found''))
         else
           (case levelIDs rt c taskLevel' parentID' of
              Inl e \<Rightarrow> (rollback c, Inl e)
            | Inr ls \<Rightarrow>
                (case storedInteger rt taskLevel' of
                   None \<Rightarrow> (rollback c, Inl (Error 500 ''Failed to create task''))
                 | Some storedLevel \<Rightarrow>
                     (case insertTask c (newRow rt b now (autoInc c) storedLevel parentID' ls) of
                        None \<Rightarrow> (rollback c, Inl (Error 500 ''Failed to create task''))
                      | Some c1 \<Rightarrow>
                          let newTaskId = autoInc c;
                              c2 = patchSelf c1 taskLevel' newTaskId
                          in (case selectTasksById c2 (IdNum newTaskId) of
                                [] \<Rightarrow> (rollback c2, Inl (Error 500 ''Failed to create task''))
                              | row # _ \<Rightarrow> (commit c2, Inr row))))))"

text \<open>
  Lines 390-407: the 201 response. The row is decoded with \<^verbatim>\<open>JSON.parse\<close> inside a
  \<^verbatim>\<open>try\<close>; when either parse throws, both fields take their defaults.
\<close>

record task_response =
  r_row :: task
  r_estPrevHours :: jsval
  r_info :: jsval

definition createTask_response :: "runtime \<Rightarrow> task \<Rightarrow> task_response" where
  "createTask_response rt row =
     (case (if estPrevHours row \<noteq> [] then JSON_parse rt (estPrevHours row) else Some (JArr []),
            if info row \<noteq> [] then JSON_parse rt (info row) else Some (JObj [])) of
        (Some e, Some i) \<Rightarrow> \<lparr> r_row = row, r_estPrevHours = e, r_info = i \<rparr>
      | _ \<Rightarrow> \<lparr> r_row = row, r_estPrevHours = JArr [], r_info = JObj [] \<rparr>)"

section \<open>safeJsonParse and the reads that use it\<close>

text \<open>\<^verbatim>\<open>String.prototype.trim\<close>, on the ASCII white space.\<close>

definition isWhite :: "char \<Rightarrow> bool" where
  "isWhite ch = (ch \<in> set [CHR 0x20, CHR 0x09, CHR 0x0A, CHR 0x0B, CHR 0x0C, CHR 0x0D])"

definition trim :: "string \<Rightarrow> string" where
  "trim s = rev (dropWhile isWhite (rev (dropWhile isWhite s)))"

text \<open>Lines 643-667.\<close>

definition safeJsonParse :: "runtime \<Rightarrow> jsval \<Rightarrow> jsval \<Rightarrow> jsval" where
  "safeJsonParse rt jsonString defaultValue =
     (case jsonString of
        JArr xs \<Rightarrow> jsonString
      | JObj kvs \<Rightarrow> jsonString
      | JStr s \<Rightarrow>
          (if trim s = [] then defaultValue
           else (case JSON_parse rt s of
                   None \<Rightarrow> defaultValue
                 | Some JNull \<Rightarrow> defaultValue
                 | Some parsed \<Rightarrow> parsed))
      | _ \<Rightarrow> defaultValue)"

text \<open>
  Lines 423-462: GET tasks of a project. The statements go through \<^verbatim>\<open>pool.query\<close>, so
  they read the committed rows.
\<close>

definition getProjectTasks :: "runtime \<Rightarrow> store \<Rightarrow> idval \<Rightarrow> error + task_response list" where
  "getProjectTasks rt c projectId =
     (if filter (\<lambda>p. sql_eq (id_p p) projectId) (projects (committed c)) = [] then
        Inl (Error 404 ''Project not found'')
      else
        Inr (map (\<lambda>task.
                \<lparr> r_row = task,
                  r_estPrevHours =
                    (if estPrevHours task \<noteq> [] then safeJsonParse rt (JStr (estPrevHours task)) (JArr [])
                     else JArr []),
                  r_info =
                    (if info task \<noteq> [] then safeJsonParse rt (JStr (info task)) (JObj [])
                     else JObj []) \<rparr>)
             (filter (\<lambda>t. sql_eq (projectID t) projectId) (tasks (committed c)))))"

text \<open>
  Lines 193-222: \<^verbatim>\<open>buildTaskHierarchy\<close>. A node is the row spread into an object, with
  \<^verbatim>\<open>id\<close> as a string, the two decoded fields, \<^verbatim>\<open>subtasks\<close>, and the property
  \<^verbatim>\<open>actionItems\<close> or \<^verbatim>\<open>subactionItems\<close> where the level adds it (\<open>None\<close>: the
  property is absent).
\<close>

datatype taskData =
  TaskData (td_row: task) (td_id: string) (td_estPrevHours: jsval) (td_info: jsval)
    (subtasks: "taskData list") (actionItems: "taskData list option")
    (subactionItems: "taskData list option")

function buildTaskHierarchy :: "runtime \<Rightarrow> task list \<Rightarrow> int \<Rightarrow> int \<Rightarrow> taskData list" where
  "buildTaskHierarchy rt allTasks parentId level =
     map (\<lambda>task.
            if level = 1 then
              TaskData task (toString (id_t task))
                (safeJsonParse rt (JStr (estPrevHours task)) (JArr []))
                (safeJsonParse rt (JStr (info task)) (JObj []))
                (buildTaskHierarchy rt allTasks (id_t task) 2) None None
            else if level = 2 then
              TaskData task (toString (id_t task))
                (safeJsonParse rt (JStr (estPrevHours task)) (JArr []))
                (safeJsonParse rt (JStr (info task)) (JObj []))
                [] (Some (buildTaskHierarchy rt allTasks (id_t task) 3)) None
            else if level = 3 then
              TaskData task (toString (id_t task))
                (safeJsonParse rt (JStr (estPrevHours task)) (JArr []))
                (safeJsonParse rt (JStr (info task)) (JObj []))
                [] None (Some (buildTaskHierarchy rt allTasks (id_t task) 4))
            else
              TaskData task (toString (id_t task))
                (safeJsonParse rt (JStr (estPrevHours task)) (JArr []))
                (safeJsonParse rt (JStr (info task)) (JObj []))
                [] None None)
         (filter (\<lambda>task. parentID task = parentId \<and> taskLevel task = level) allTasks)"
  by pat_completeness auto
termination
  by (relation "measure (\<lambda>(rt, allTasks, parentId, level). nat (4 - level))") auto

declare buildTaskHierarchy.simps [simp del]

section \<open>DELETE /projects/:id\<close>

text \<open>Lines 241-267. The success response is \<^verbatim>\<open>{ success: true }\<close>.\<close>

definition deleteProject :: "store \<Rightarrow> idval \<Rightarrow> store \<times> (error + unit)" where
  "deleteProject c0 projectId =
     (let c = beginTransaction c0;
          c1 = setTasks c (filter (\<lambda>t. \<not> sql_eq (projectID t) projectId) (tasks (working c)));
          affectedRows = length (filter (\<lambda>p. sql_eq (id_p p) projectId) (projects (working c1)));
          c2 = setProjects c1 (filter (\<lambda>p. \<not> sql_eq (id_p p) projectId) (projects (working c1)))
      in if affectedRows = 0 then (rollback c2, Inl (Error 404 ''Project not found''))
         else (commit c2, Inr ()))"

section \<open>PUT /tasks/:id\<close>

text \<open>
  The request body: a field is \<open>None\<close> when it is \<^verbatim>\<open>undefined\<close>. \<open>u_dueDate\<close> may
  also be given as \<^verbatim>\<open>null\<close> (\<open>Some None\<close>).
\<close>

record task_updates =
  u_name :: "string option"
  u_description :: "string option"
  u_status :: "string option"
  u_assignee1ID :: "int option"
  u_assignee2ID :: "int option"
  u_assignee3ID :: "int option"
  u_estHours :: "rat option"
  u_actHours :: "rat option"
  u_priority :: "string option"
  u_dueDate :: "string option option"
  u_comments :: "string option"
  u_taskType :: "string option"
  u_expanded :: "int option"

fun replaceFirst :: "char \<Rightarrow> char \<Rightarrow> string \<Rightarrow> string" where
  "replaceFirst a b [] = []"
| "replaceFirst a b (x # xs) = (if x = a then b # xs else x # replaceFirst a b xs)"

text \<open>
  Lines 465-469: \<^verbatim>\<open>formatDateForMySQL\<close>. The outer \<open>None\<close> is the RangeError that
  \<^verbatim>\<open>toISOString\<close> throws, \<open>Some None\<close> is \<^verbatim>\<open>null\<close>.
\<close>

definition formatDateForMySQL :: "runtime \<Rightarrow> string option \<Rightarrow> string option option" where
  "formatDateForMySQL rt date =
     (case date of
        None \<Rightarrow> Some None
      | Some s \<Rightarrow>
          (if s = [] then Some None
           else (case Date_toISOString rt s of
                   None \<Rightarrow> None
                 | Some isoText \<Rightarrow> Some (Some (replaceFirst CHR ''T'' CHR '' '' (take 19 isoText))))))"

text \<open>
  Lines 497-507: the value bound to \<^verbatim>\<open>dueDate = ?\<close>, when the field is given.
\<close>

definition dueDateValue :: "runtime \<Rightarrow> string option \<Rightarrow> string option option" where
  "dueDateValue rt d =
     (case d of
        None \<Rightarrow> Some None
      | Some s \<Rightarrow> (if s \<noteq> [] then formatDateForMySQL rt (Some s) else Some (Some s)))"

text \<open>
  Lines 497-533: the SET list of the UPDATE, in the order it is built: the allow-listed
  fields that are given, then \<open>estPrevHours\<close> (lines 510-513), then \<open>modifiedAt\<close>.
\<close>

definition applyUpdates :: "runtime \<Rightarrow> task_updates \<Rightarrow> string option option \<Rightarrow> task \<Rightarrow> string \<Rightarrow> task \<Rightarrow> task" where
  "applyUpdates rt u due currentTask now t =
     (t \<lparr> modifiedAt := now \<rparr>)
       \<lparr> estPrevHours :=
           (if u_estHours u \<noteq> None \<and> taskLevel currentTask > 1
            then JSON_stringify rt (JArr [JNum (estHours currentTask)])
            else estPrevHours t) \<rparr>
       \<lparr> expanded := (case u_expanded u of None \<Rightarrow> expanded t | Some x \<Rightarrow> x),
         taskType := (case u_taskType u of None \<Rightarrow> taskType t | Some x \<Rightarrow> x),
         comments := (case u_comments u of None \<Rightarrow> comments t | Some x \<Rightarrow> x),
         dueDate := (case due of None \<Rightarrow> dueDate t | Some x \<Rightarrow> x),
         priority := (case u_priority u of None \<Rightarrow> priority t | Some x \<Rightarrow> x),
         actHours := (case u_actHours u of None \<Rightarrow> actHours t | Some x \<Rightarrow> x),
         estHours := (case u_estHours u of None \<Rightarrow> estHours t | Some x \<Rightarrow> x),
         assignee3ID := (case u_assignee3ID u of None \<Rightarrow> assignee3ID t | Some x \<Rightarrow> x),
         assignee2ID := (case u_assignee2ID u of None \<Rightarrow> assignee2ID t | Some x \<Rightarrow> x),
         assignee1ID := (case u_assignee1ID u of None \<Rightarrow> assignee1ID t | Some x \<Rightarrow> x),
         status := (case u_status u of None \<Rightarrow> status t | Some x \<Rightarrow> x),
         description := (case u_description u of None \<Rightarrow> description t | Some x \<Rightarrow> x),
         name := (case u_name u of None \<Rightarrow> name t | Some x \<Rightarrow> x) \<rparr>"

definition noFields :: "task_updates \<Rightarrow> bool" where
  "noFields u =
     (u_name u = None \<and> u_description u = None \<and> u_status u = None \<and>
      u_assignee1ID u = None \<and> u_assignee2ID u = None \<and> u_assignee3ID u = None \<and>
      u_estHours u = None \<and> u_actHours u = None \<and> u_priority u = None \<and>
      u_dueDate u = None \<and> u_comments u = None \<and> u_taskType u = None \<and>
      u_expanded u = None)"

text \<open>
  Lines 545-554: the decoding of the row read back. The column is a string, so each
  field goes through a bare \<^verbatim>\<open>JSON.parse\<close>; \<open>None\<close> when it throws.
\<close>

definition updateTask_response :: "runtime \<Rightarrow> task \<Rightarrow> task_response option" where
  "updateTask_response rt row =
     (case JSON_parse rt (estPrevHours row) of
        None \<Rightarrow> None
      | Some e \<Rightarrow>
          (case JSON_parse rt (if info row \<noteq> [] then info row else ''{}'') of
             None \<Rightarrow> None
           | Some i \<Rightarrow> Some \<lparr> r_row = row, r_estPrevHours = e, r_info = i \<rparr>))"

text \<open>Lines 472-564.\<close>

definition updateTask :: "runtime \<Rightarrow> string \<Rightarrow> store \<Rightarrow> idval \<Rightarrow> task_updates \<Rightarrow> store \<times> (error + task_response)" where
  "updateTask rt now c0 taskId updates =
     (let c = beginTransaction c0 in
      case selectTasksById c taskId of
        [] \<Rightarrow> (rollback c, Inl (Error 404 ''Task not found''))
      | currentTask # _ \<Rightarrow>
          (case (case u_dueDate updates of None \<Rightarrow> Some None
                 | Some d \<Rightarrow> map_option Some (dueDateValue rt d)) of
             None \<Rightarrow> (rollback c, Inl (Error 500 ''Failed to update task''))
           | Some due \<Rightarrow>
               if noFields updates then
                 (rollback c, Inl (Error 400 ''No valid fields to update''))
               else
                 let c1 = setTasks c
                            (map (\<lambda>t. if sql_eq (id_t t) taskId
                                       then applyUpdates rt updates due currentTask now t else t)
                               (tasks (working c)))
                 in (case selectTasksById c1 taskId of
                       [] \<Rightarrow> (rollback c1, Inl (Error 404 ''Task not found after update''))
                     | updatedTask # _ \<Rightarrow>
                         let c2 = commit c1
                         in (case updateTask_response rt updatedTask of
                               None \<Rightarrow> (rollback c2, Inl (Error 500 ''Failed to update task''))
                             | Some response \<Rightarrow> (c2, Inr response)))))"

section \<open>DELETE /tasks/:id\<close>

text \<open>
  A \<^verbatim>\<open>Set\<close> of identifiers, in insertion order: \<^verbatim>\<open>add\<close> appends a value that is not
  yet a member, \<^verbatim>\<open>has\<close> is membership, \<^verbatim>\<open>size\<close> is the length.
\<close>

definition setAdd :: "idval list \<Rightarrow> idval \<Rightarrow> idval list" where
  "setAdd s v = (if v \<in> set s then s else s @ [v])"

text \<open>Lines 604-608: the first pass, with the loose comparison against the route parameter.\<close>

definition firstPass :: "(task \<Rightarrow> int) \<Rightarrow> task list \<Rightarrow> idval \<Rightarrow> idval list \<Rightarrow> idval list" where
  "firstPass targetField allTasks taskId idsToDelete =
     foldl (\<lambda>s task. if loose_eq (targetField task) taskId then setAdd s (IdNum (id_t task)) else s)
       idsToDelete allTasks"

text \<open>Lines 614-618: one pass of the loop body.\<close>

definition closurePass :: "(task \<Rightarrow> int) \<Rightarrow> task list \<Rightarrow> idval list \<Rightarrow> idval list" where
  "closurePass targetField allTasks idsToDelete =
     foldl (\<lambda>s task. if IdNum (targetField task) \<in> set s \<and> IdNum (id_t task) \<notin> set s
                      then setAdd s (IdNum (id_t task)) else s)
       idsToDelete allTasks"

lemma closurePass_grows:
  "\<exists>xs. closurePass f ts s = s @ xs \<and> set xs \<subseteq> IdNum ` id_t ` set ts - set s"
  unfolding closurePass_def
proof (induction ts arbitrary: s)
  case Nil
  show ?case by simp
next
  case (Cons t ts)
  let ?g = "\<lambda>s task. if IdNum (f task) \<in> set s \<and> IdNum (id_t task) \<notin> set s
                      then setAdd s (IdNum (id_t task)) else s"
  obtain ys where ys: "?g s t = s @ ys" "set ys \<subseteq> {IdNum (id_t t)} - set s"
    by (cases "IdNum (f t) \<in> set s \<and> IdNum (id_t t) \<notin> set s") (auto simp: setAdd_def)
  from Cons.IH[of "?g s t"] obtain xs where
    xs: "foldl ?g (?g s t) ts = ?g s t @ xs" "set xs \<subseteq> IdNum ` id_t ` set ts - set (?g s t)"
    by blast
  have "foldl ?g s (t # ts) = s @ (ys @ xs)"
    using xs(1) ys(1) by simp
  moreover have "set (ys @ xs) \<subseteq> IdNum ` id_t ` set (t # ts) - set s"
    using xs(2) ys by auto
  ultimately show ?case by blast
qed

text \<open>Lines 611-619: the \<^verbatim>\<open>do ... while\<close> loop, which runs until a pass adds nothing.\<close>

function closureLoop :: "(task \<Rightarrow> int) \<Rightarrow> task list \<Rightarrow> idval list \<Rightarrow> idval list" where
  "closureLoop targetField allTasks idsToDelete =
     (let currentSize = length idsToDelete;
          ids' = closurePass targetField allTasks idsToDelete
      in if currentSize \<noteq> length ids' then closureLoop targetField allTasks ids' else ids')"
  by pat_completeness auto
termination
proof (relation "measure (\<lambda>(f, ts, s). card (IdNum ` id_t ` set ts - set s))")
  show "wf (measure (\<lambda>(f, ts, s). card (IdNum ` id_t ` set ts - set s)))"
    by simp
next
  fix f :: "task \<Rightarrow> int" and ts :: "task list" and s :: "idval list" and n :: nat and s' :: "idval list"
  assume n: "n = length s" and s': "s' = closurePass f ts s" and ne: "n \<noteq> length s'"
  from closurePass_grows[of f ts s] s' obtain xs where
    xs: "s' = s @ xs" "set xs \<subseteq> IdNum ` id_t ` set ts - set s"
    by blast
  from ne n xs(1) obtain x where x: "x \<in> set xs"
    by (cases xs) auto
  have "IdNum ` id_t ` set ts - set s' \<subset> IdNum ` id_t ` set ts - set s"
    using x xs by auto
  then have "card (IdNum ` id_t ` set ts - set s') < card (IdNum ` id_t ` set ts - set s)"
    by (intro psubset_card_mono) auto
  then show "((f, ts, s'), (f, ts, s)) \<in> measure (\<lambda>(f, ts, s). card (IdNum ` id_t ` set ts - set s))"
    by simp
qed

declare closureLoop.simps [simp del]

text \<open>
  Lines 567-640. The statement \<^verbatim>\<open>DELETE FROM tasks WHERE id IN (?)\<close> removes every row
  whose identifier compares equal to a member of the list; the success response carries
  \<^verbatim>\<open>deletedCount: idsToDelete.size\<close>.
\<close>

definition deleteTask :: "store \<Rightarrow> idval \<Rightarrow> store \<times> (error + nat)" where
  "deleteTask c0 taskId =
     (let c = beginTransaction c0 in
      case selectTasksById c taskId of
        [] \<Rightarrow> (rollback c, Inl (Error 404 ''Task not found''))
      | taskToDelete # _ \<Rightarrow>
          (case levelMap (taskLevel taskToDelete) of
             None \<Rightarrow> (rollback c, Inl (Error 400 ''Invalid task level''))
           | Some targetField \<Rightarrow>
               let allTasks = selectTasksByProject c (IdNum (projectID taskToDelete));
                   idsToDelete = closureLoop targetField allTasks
                                   (firstPass targetField allTasks taskId [taskId]);
                   c1 = setTasks c (filter (\<lambda>t. \<not> (\<exists>v \<in> set idsToDelete. sql_eq (id_t t) v))
                                      (tasks (working c)))
               in (commit c1, Inr (length idsToDelete))))"

section \<open>Notions used in the statements\<close>

text \<open>The first row with a given identifier, as \<^verbatim>\<open>rows[0]\<close> of a lookup by id.\<close>

definition findTask :: "db \<Rightarrow> int \<Rightarrow> task option" where
  "findTask d n = find (\<lambda>t. id_t t = n) (tasks d)"

text \<open>The level of a row with its four ancestor columns.\<close>

definition pointers :: "task \<Rightarrow> int \<times> int \<times> int \<times> int \<times> int" where
  "pointers t = (taskLevel t, level1ID t, level2ID t, level3ID t, level4ID t)"

text \<open>
  The row that lines 355-379 leave for an inserted row, when the request gave the value
  \<open>v\<close> as its level.
\<close>

definition selfPatched :: "jsval \<Rightarrow> task \<Rightarrow> task" where
  "selfPatched v r =
     (if strictEq v 1 then r\<lparr>level1ID := id_t r\<rparr>
      else if strictEq v 2 then r\<lparr>level2ID := id_t r\<rparr>
      else if strictEq v 3 then r\<lparr>level3ID := id_t r\<rparr>
      else if strictEq v 4 then r\<lparr>level4ID := id_t r\<rparr> else r)"

text \<open>
  The trees of the round-trip property. A tree is what \<open>buildTaskHierarchy\<close> returns, so
  the nodes are \<open>taskData\<close>; the children of a node are the lists under \<^verbatim>\<open>subtasks\<close>,
  \<^verbatim>\<open>actionItems\<close> and \<^verbatim>\<open>subactionItems\<close>.
\<close>

fun children :: "taskData \<Rightarrow> taskData list" where
  "children (TaskData r i e f ss as sas) =
     ss @ (case as of None \<Rightarrow> [] | Some xs \<Rightarrow> xs) @ (case sas of None \<Rightarrow> [] | Some xs \<Rightarrow> xs)"

text \<open>
  \<open>flatten\<close> follows the spec's words (the source has no such function): the rows of a
  tree, each node before its children, siblings in their order.
\<close>

fun flatten :: "taskData \<Rightarrow> task list" where
  "flatten (TaskData r i e f ss as sas) =
     r # concat (map flatten ss)
       @ (case as of None \<Rightarrow> [] | Some xs \<Rightarrow> concat (map flatten xs))
       @ (case sas of None \<Rightarrow> [] | Some xs \<Rightarrow> concat (map flatten xs))"

definition flattenForest :: "taskData list \<Rightarrow> task list" where
  "flattenForest ns = concat (map flatten ns)"

text \<open>
  A node is well formed at level \<open>l\<close> under the parent identifier \<open>p\<close> when its row has
  that level and parent, its \<^verbatim>\<open>id\<close> and decoded fields are those of the row, it carries
  the child property of its level and no other, and its children are well formed one level
  down under its identifier. A forest is well formed when its roots are well formed at
  level 1 under parent 0 and no two rows share an identifier.
\<close>

fun wfNode :: "runtime \<Rightarrow> int \<Rightarrow> int \<Rightarrow> taskData \<Rightarrow> bool" where
  "wfNode rt p l (TaskData r i e f ss as sas) =
     (parentID r = p \<and> taskLevel r = l \<and>
      i = toString (id_t r) \<and>
      e = safeJsonParse rt (JStr (estPrevHours r)) (JArr []) \<and>
      f = safeJsonParse rt (JStr (info r)) (JObj []) \<and>
      (if l = 1 then
         list_all (wfNode rt (id_t r) 2) ss \<and> as = None \<and> sas = None
       else if l = 2 then
         ss = [] \<and> (case as of None \<Rightarrow> False | Some xs \<Rightarrow> list_all (wfNode rt (id_t r) 3) xs) \<and>
         sas = None
       else if l = 3 then
         ss = [] \<and> as = None \<and>
         (case sas of None \<Rightarrow> False | Some xs \<Rightarrow> list_all (wfNode rt (id_t r) 4) xs)
       else l = 4 \<and> ss = [] \<and> as = None \<and> sas = None))"

definition wellFormed :: "runtime \<Rightarrow> taskData list \<Rightarrow> bool" where
  "wellFormed rt forest =
     (list_all (wfNode rt 0 1) forest \<and> distinct (map id_t (flattenForest forest)))"


text \<open>The node that lines 196-219 build from one row.\<close>

definition buildNode :: "runtime \<Rightarrow> task list \<Rightarrow> int \<Rightarrow> task \<Rightarrow> taskData" where
  "buildNode rt allTasks level task =
     (if level = 1 then
        TaskData task (toString (id_t task))
          (safeJsonParse rt (JStr (estPrevHours task)) (JArr []))
          (safeJsonParse rt (JStr (info task)) (JObj []))
          (buildTaskHierarchy rt allTasks (id_t task) 2) None None
      else if level = 2 then
        TaskData task (toString (id_t task))
          (safeJsonParse rt (JStr (estPrevHours task)) (JArr []))
          (safeJsonParse rt (JStr (info task)) (JObj []))
          [] (Some (buildTaskHierarchy rt allTasks (id_t task) 3)) None
      else if level = 3 then
        TaskData task (toString (id_t task))
          (safeJsonParse rt (JStr (estPrevHours task)) (JArr []))
          (safeJsonParse rt (JStr (info task)) (JObj []))
          [] None (Some (buildTaskHierarchy rt allTasks (id_t task) 4))
      else
        TaskData task (toString (id_t task))
          (safeJsonParse rt (JStr (estPrevHours task)) (JArr []))
          (safeJsonParse rt (JStr (info task)) (JObj []))
          [] None None)"

abbreviation sel :: "int \<Rightarrow> int \<Rightarrow> task \<Rightarrow> bool" where
  "sel q k \<equiv> (\<lambda>task. parentID task = q \<and> taskLevel task = k)"

section \<open>Example data\<close>

text \<open>
  One project with a chain of three tasks: task 1 at level 1, task 2 under it, task 3 under
  task 2. \<open>exRow i l p ls\<close> is the row with identifier \<open>i\<close>, level \<open>l\<close>, parent \<open>p\<close>
  and the four ancestor columns \<open>ls\<close>.
\<close>

definition exProject :: project where
  "exProject = \<lparr> id_p = 1, userID_p = 1, name_p = ''P1'', description_p = [],
      startDate_p = ''2024-01-01 00:00:00'', endDate_p = ''2024-12-31 00:00:00'',
      estHours_p = 0, actHours_p = 0, wsID_p = 1,
      createdAt_p = ''2024-01-01 00:00:00'', modifiedAt_p = ''2024-01-01 00:00:00'' \<rparr>"

definition exBody :: "jsval option \<Rightarrow> int option \<Rightarrow> task_body" where
  "exBody l p = \<lparr> b_description = [], b_wsID = 1, b_userID = 1, b_projectID = 1,
      b_name = ''T'', b_taskLevel = l, b_status = ''todo'', b_parentID = p,
      b_assignee1ID = 0, b_assignee2ID = 0, b_assignee3ID = 0,
      b_estHours = 0, b_estPrevHours = JArr [], b_actHours = 0, b_isExceeded = 0,
      b_info = JObj [], b_taskType = ''task'', b_priority = ''low'', b_dueDate = None,
      b_comments = [] \<rparr>"

definition exRow :: "int \<Rightarrow> int \<Rightarrow> int \<Rightarrow> int \<times> int \<times> int \<times> int \<Rightarrow> task" where
  "exRow i l p ls =
     \<lparr> id_t = i, wsID = 1, userID = 1, projectID = 1, name = ''T'', description = [],
       taskLevel = l, status = ''todo'', parentID = p,
       level1ID = fst ls, level2ID = fst (snd ls), level3ID = fst (snd (snd ls)),
       level4ID = snd (snd (snd ls)),
       assignee1ID = 0, assignee2ID = 0, assignee3ID = 0,
       estHours = 0, estPrevHours = ''[]'', actHours = 0, isExceeded = 0, priority = ''low'',
       info = ''{}'', taskType = ''task'', dueDate = None, comments = [],
       expanded = 0, createdAt = ''2024-01-01 00:00:00'', modifiedAt = ''2024-01-01 00:00:00'' \<rparr>"

definition exDb :: db where
  "exDb = \<lparr> projects = [exProject],
             tasks = [exRow 1 1 0 (1, 0, 0, 0), exRow 2 2 1 (1, 2, 0, 0), exRow 3 3 2 (1, 2, 3, 0)] \<rparr>"

definition exStore :: store where
  "exStore = \<lparr> committed = exDb, working = exDb, autoInc = 4 \<rparr>"

definition exAfter :: "task \<Rightarrow> store" where
  "exAfter row = \<lparr> committed = exDb\<lparr>tasks := tasks exDb @ [row]\<rparr>,
                    working = exDb\<lparr>tasks := tasks exDb @ [row]\<rparr>, autoInc = 5 \<rparr>"

text \<open>The example store without its project row: the three tasks are orphans.\<close>

definition exOrphans :: store where
  "exOrphans = \<lparr> committed = exDb\<lparr>projects := []\<rparr>, working = exDb\<lparr>projects := []\<rparr>, autoInc = 4 \<rparr>"

text \<open>
  A runtime for the examples. Each built-in returns what the real one returns on the
  values that the examples hand to it: \<open>JSON_parse\<close> rejects every other text, among
  them the empty text and \<^verbatim>\<open>garbage\<close>, on which \<^verbatim>\<open>JSON.parse\<close> throws;
  \<open>StringToNumber\<close> reads \<^verbatim>\<open>"2"\<close> as 2; the store turns the string \<^verbatim>\<open>"2"\<close> and the
  number 1.5, bound to an integer column, into 2.
\<close>

definition exParse :: "string \<Rightarrow> jsval option" where
  "exParse s =
     (if s = ''[]'' then Some (JArr [])
      else if s = ''{}'' then Some (JObj [])
      else if s = ''[3]'' then Some (JArr [JNum 3])
      else if s = ''[1,2]'' then Some (JArr [JNum 1, JNum 2])
      else None)"

definition exStringify :: "jsval \<Rightarrow> string" where
  "exStringify v =
     (if v = JArr [] then ''[]''
      else if v = JObj [] then ''{}''
      else if v = JArr [JNum 3] then ''[3]''
      else ''null'')"

definition exRuntime :: runtime where
  "exRuntime = \<lparr> JSON_parse = exParse,
                  JSON_stringify = exStringify,
                  Date_toISOString = (\<lambda>s. if s = ''2024-06-01'' then Some ''2024-06-01T00:00:00.000Z''
                                           else None),
                  StringToNumber = (\<lambda>s. if s = ''2'' then Some 2 else None),
                  Object_toString = (\<lambda>v. []),
                  SQL_integer = (\<lambda>v. if v = JStr ''2'' \<or> v = JNum (3 / 2) then Some 2 else None) \<rparr>"

definition exUpdates :: task_updates where
  "exUpdates = \<lparr> u_name = None, u_description = None, u_status = None,
      u_assignee1ID = None, u_assignee2ID = None, u_assignee3ID = None,
      u_estHours = None, u_actHours = None, u_priority = None, u_dueDate = None,
      u_comments = None, u_taskType = None, u_expanded = None \<rparr>"

text \<open>
  The example store with other values in task 2: its estimate and the two persisted texts.
\<close>

definition exStoreWith :: "rat \<Rightarrow> string \<Rightarrow> string \<Rightarrow> store" where
  "exStoreWith h e i =
     (let d = exDb\<lparr>tasks := [exRow 1 1 0 (1, 0, 0, 0),
                              (exRow 2 2 1 (1, 2, 0, 0))\<lparr>estHours := h, estPrevHours := e, info := i\<rparr>,
                              exRow 3 3 2 (1, 2, 3, 0)]\<rparr>
      in \<lparr> committed = d, working = d, autoInc = 4 \<rparr>)"

text \<open>
  The example store with a second project, whose only task 4 carries the stale ancestor
  value 1 in \<open>level1ID\<close>.
\<close>

definition exTwoProjects :: store where
  "exTwoProjects =
     (let d = \<lparr> projects = [exProject, exProject\<lparr>id_p := 2\<rparr>],
                 tasks = tasks exDb @ [(exRow 4 1 0 (1, 0, 0, 0))\<lparr>projectID := 2\<rparr>] \<rparr>
      in \<lparr> committed = d, working = d, autoInc = 5 \<rparr>)"

text \<open>A forest over the example rows, four levels deep.\<close>

definition exNode :: "task \<Rightarrow> taskData list \<Rightarrow> taskData list option \<Rightarrow> taskData list option \<Rightarrow> taskData" where
  "exNode r ss as sas = TaskData r (toString (id_t r)) (JArr []) (JObj []) ss as sas"

definition exForest :: "taskData list" where
  "exForest =
     [exNode (exRow 1 1 0 (1, 0, 0, 0))
        [exNode (exRow 2 2 1 (1, 2, 0, 0)) []
           (Some [exNode (exRow 3 3 2 (1, 2, 3, 0)) [] None
                    (Some [exNode (exRow 4 4 3 (1, 2, 3, 4)) [] None None]),
                  exNode (exRow 5 3 2 (1, 2, 5, 0)) [] None (Some [])])
           None,
         exNode (exRow 6 2 1 (1, 6, 0, 0)) [] (Some []) None]
        None None,
      exNode (exRow 7 1 0 (7, 0, 0, 0)) [] None None]"

lemmas ex_defs = exStore_def exDb_def exBody_def exRow_def exProject_def exAfter_def

section \<open>Creating a task\<close>

lemmas createTask_defs = createTask_def beginTransaction_def rollback_def commit_def
  selectProjectsById_def selectTasksById_def sql_eq_def levelIDs_def inherit_def newRow_def
  insertTask_def setTasks_def patchSelf_def Let_def bodyLevel_def bodyParent_def
  jsGreaterThan_def strictEq_def storedInteger_def

lemma map_patch_fresh:
  "n \<notin> id_t ` set ts \<Longrightarrow> map (\<lambda>t. if id_t t = n then f t else t) ts = ts"
  by (induction ts) auto

lemma filter_fresh:
  "n \<notin> id_t ` set ts \<Longrightarrow> filter (\<lambda>t. id_t t = n) ts = []"
  by (induction ts) auto

lemma find_as_filter:
  "find P xs = (case filter P xs of [] \<Rightarrow> None | x # _ \<Rightarrow> Some x)"
  by (induction xs) auto

lemma patchSelf_insert:
  assumes "insertTask c r = Some c1"
  shows "tasks (working (patchSelf c1 v (id_t r))) = tasks (working c) @ [selfPatched v r]"
    and "projects (working (patchSelf c1 v (id_t r))) = projects (working c)"
  using assms
  by (auto simp: insertTask_def patchSelf_def setTasks_def map_patch_fresh selfPatched_def
      split: if_splits)

lemma selectTasksById_begin:
  "selectTasksById (beginTransaction c) (IdNum n) = filter (\<lambda>t. id_t t = n) (tasks (committed c))"
  by (simp add: selectTasksById_def beginTransaction_def sql_eq_def)

lemma levelIDs_begin:
  "levelIDs rt (beginTransaction c) v p =
     (if jsGreaterThan rt v 1 \<and> p \<noteq> 0 then
        (case findTask (committed c) p of
           None \<Rightarrow> Inl (Error 400 ''Parent task not found'')
         | Some parent \<Rightarrow>
             (if v = JNum 2 then Inr (inherit parent 1 level1ID, 0, inherit parent 3 level3ID, inherit parent 4 level4ID)
              else if v = JNum 3 then Inr (inherit parent 1 level1ID, inherit parent 2 level2ID, 0, inherit parent 4 level4ID)
              else if v = JNum 4 then Inr (inherit parent 1 level1ID, inherit parent 2 level2ID, inherit parent 3 level3ID, 0)
              else Inr (inherit parent 1 level1ID, inherit parent 2 level2ID, inherit parent 3 level3ID, inherit parent 4 level4ID)))
      else Inr (0, 0, 0, 0))"
  by (simp add: levelIDs_def selectTasksById_begin findTask_def find_as_filter Let_def strictEq_def
      split: list.splits)

lemma newRow_sel:
  "id_t (newRow rt b now i l p ls) = i"
  "taskLevel (newRow rt b now i l p ls) = l"
  "parentID (newRow rt b now i l p ls) = p"
  "level1ID (newRow rt b now i l p ls) = fst ls"
  "level2ID (newRow rt b now i l p ls) = fst (snd ls)"
  "level3ID (newRow rt b now i l p ls) = fst (snd (snd ls))"
  "level4ID (newRow rt b now i l p ls) = snd (snd (snd ls))"
  by (cases ls; simp add: newRow_def)+

lemma selfPatched_sel:
  "id_t (selfPatched v r) = id_t r"
  "taskLevel (selfPatched v r) = taskLevel r"
  "parentID (selfPatched v r) = parentID r"
  "level1ID (selfPatched v r) = (if v = JNum 1 then id_t r else level1ID r)"
  "level2ID (selfPatched v r) = (if v = JNum 2 then id_t r else level2ID r)"
  "level3ID (selfPatched v r) = (if v = JNum 3 then id_t r else level3ID r)"
  "level4ID (selfPatched v r) = (if v = JNum 4 then id_t r else level4ID r)"
  by (simp_all add: selfPatched_def strictEq_def)

lemma createTask_success:
  assumes "createTask rt now c b = (c', Inr row)"
  obtains ls lv where "levelIDs rt (beginTransaction c) (bodyLevel b) (bodyParent b) = Inr ls"
    and "storedInteger rt (bodyLevel b) = Some lv"
    and "row = selfPatched (bodyLevel b) (newRow rt b now (autoInc c) lv (bodyParent b) ls)"
    and "tasks (committed c') = tasks (committed c) @ [row]"
    and "projects (committed c') = projects (committed c)"
    and "autoInc c \<notin> id_t ` set (tasks (committed c))"
proof -
  let ?c = "beginTransaction c"
  let ?v = "bodyLevel b" and ?p = "bodyParent b"
  from assms have proj: "selectProjectsById ?c (IdNum (b_projectID b)) \<noteq> []"
    by (auto simp: createTask_def Let_def split: if_splits)
  from assms proj obtain ls where ls: "levelIDs rt ?c ?v ?p = Inr ls"
    by (auto simp: createTask_def Let_def split: sum.splits)
  from assms proj ls obtain lv where lv: "storedInteger rt ?v = Some lv"
    by (auto simp: createTask_def Let_def split: option.splits)
  let ?r = "newRow rt b now (autoInc c) lv ?p ls"
  have idr: "id_t ?r = autoInc c"
    by (rule newRow_sel)
  have ai: "autoInc ?c = autoInc c" and wk: "working ?c = committed c"
    by (simp_all add: beginTransaction_def)
  from assms proj ls lv obtain c1 where c1: "insertTask ?c ?r = Some c1"
    by (auto simp: createTask_def Let_def ai split: option.splits)
  then have fresh: "autoInc c \<notin> id_t ` set (tasks (committed c))"
    by (auto simp: insertTask_def idr wk split: if_splits)
  let ?row = "selfPatched ?v ?r"
  let ?c2 = "patchSelf c1 ?v (autoInc c)"
  have t2: "tasks (working ?c2) = tasks (committed c) @ [?row]"
    and p2: "projects (working ?c2) = projects (committed c)"
    using patchSelf_insert[OF c1, of ?v] by (simp_all only: idr wk)
  have idrow: "id_t ?row = autoInc c"
    by (simp add: selfPatched_sel idr)
  have sel: "selectTasksById ?c2 (IdNum (autoInc c)) = [?row]"
    unfolding selectTasksById_def sql_eq_def t2 numberOf.simps filter_append
    using filter_fresh[OF fresh] idrow by simp
  from assms proj ls lv c1 sel have res: "c' = commit ?c2" "row = ?row"
    by (simp_all add: createTask_def Let_def ai)
  have "tasks (committed c') = tasks (committed c) @ [row]"
    using res t2 by (simp add: commit_def)
  moreover have "projects (committed c') = projects (committed c)"
    using res p2 by (simp add: commit_def)
  ultimately show ?thesis
    using ls lv fresh res(2) that by blast
qed





lemmas ex_runtime_defs = exRuntime_def exStringify_def exParse_def



lemma ex_create_4_under_3:
  "createTask exRuntime ''2024-01-01 00:00:00'' exStore (exBody (Some (JNum 4)) (Some 3)) =
     (exAfter (exRow 4 4 3 (1, 2, 3, 4)), Inr (exRow 4 4 3 (1, 2, 3, 4)))"
  by (simp add: createTask_defs ex_defs ex_runtime_defs)

lemma ex_create_2_no_parent:
  "createTask exRuntime ''2024-01-01 00:00:00'' exStore (exBody (Some (JNum 2)) None) =
     (exAfter (exRow 4 2 0 (0, 4, 0, 0)), Inr (exRow 4 2 0 (0, 4, 0, 0)))"
  by (simp add: createTask_defs ex_defs ex_runtime_defs)

lemma ex_findTask:
  "findTask (committed exStore) 1 = Some (exRow 1 1 0 (1, 0, 0, 0))"
  "findTask (committed exStore) 3 = Some (exRow 3 3 2 (1, 2, 3, 0))"
  "findTask (committed exStore) 9 = None"
  by (simp_all add: findTask_def ex_defs)

lemma levelMap_simps:
  "levelMap 1 = Some level1ID" "levelMap 2 = Some level2ID"
  "levelMap 3 = Some level3ID" "levelMap 4 = Some level4ID"
  by (simp_all add: levelMap_def)



text \<open>
  Outside the amended statement: a level that is not an integer number. Line 306 converts
  the string \<^verbatim>\<open>"2"\<close> and the number 1.5 and finds them above 1, lines 326-328 and 355-373
  compare without conversion and find neither equal to 2, 3 or 4. The row is committed at
  level 2 with the pointers of the parent and no pointer to itself.
\<close>

lemma createTask_converted_level_has_no_self_pointer:
  "map_sum id pointers
     (snd (createTask exRuntime ''2024-01-01 00:00:00'' exStore (exBody (Some (JStr ''2'')) (Some 1))))
     = Inr (2, 1, 0, 0, 0) \<and>
   map_sum id pointers
     (snd (createTask exRuntime ''2024-01-01 00:00:00'' exStore (exBody (Some (JNum (3 / 2))) (Some 1))))
     = Inr (2, 1, 0, 0, 0)"
  by (simp add: createTask_defs ex_defs ex_runtime_defs pointers_def)

text \<open>
  C3 (as amended). When the project exists, line 306 finds the level above 1 and the request
  names a non-zero parentID that no task row has, createTask answers 400 "Parent task not
  found" and the committed store is unchanged.
\<close>

theorem createTask_unknown_parent:
  assumes "b_projectID b \<in> id_p ` set (projects (committed c))"
    and "jsGreaterThan rt (bodyLevel b) 1" and "bodyParent b \<noteq> 0"
    and "bodyParent b \<notin> id_t ` set (tasks (committed c))"
  shows "snd (createTask rt now c b) = Inl (Error 400 ''Parent task not found'') \<and>
         committed (fst (createTask rt now c b)) = committed c"
proof -
  have proj: "selectProjectsById (beginTransaction c) (IdNum (b_projectID b)) \<noteq> []"
    using assms(1)
    by (auto simp: selectProjectsById_def beginTransaction_def sql_eq_def filter_empty_conv)
  have "\<not> (\<exists>x. x \<in> set (tasks (committed c)) \<and> id_t x = bodyParent b)"
    using assms(4) by force
  then have "findTask (committed c) (bodyParent b) = None"
    unfolding findTask_def find_None_iff .
  then have "levelIDs rt (beginTransaction c) (bodyLevel b) (bodyParent b) =
      Inl (Error 400 ''Parent task not found'')"
    using assms(2,3) by (simp add: levelIDs_begin)
  with proj show ?thesis
    by (simp add: createTask_def Let_def rollback_def beginTransaction_def)
qed

theorem createTask_unknown_parent_witness:
  "snd (createTask exRuntime ''2024-01-01 00:00:00'' exStore (exBody (Some (JNum 2)) (Some 9))) =
     Inl (Error 400 ''Parent task not found'') \<and>
   committed (fst (createTask exRuntime ''2024-01-01 00:00:00'' exStore (exBody (Some (JNum 2)) (Some 9)))) =
     committed exStore"
proof -
  have "b_projectID (exBody (Some (JNum 2)) (Some 9)) \<in> id_p ` set (projects (committed exStore))"
    by (simp add: ex_defs)
  moreover have "jsGreaterThan exRuntime (bodyLevel (exBody (Some (JNum 2)) (Some 9))) 1"
    and "bodyParent (exBody (Some (JNum 2)) (Some 9)) \<noteq> 0"
    by (simp_all add: bodyLevel_def bodyParent_def exBody_def jsGreaterThan_def)
  moreover have "bodyParent (exBody (Some (JNum 2)) (Some 9)) \<notin> id_t ` set (tasks (committed exStore))"
    by (simp add: bodyParent_def ex_defs)
  ultimately show ?thesis
    by (rule createTask_unknown_parent)
qed

text \<open>
  C3 as stated fails when parentID is absent: the parent check of line 306 is skipped and
  the level-2 row is inserted and committed.
\<close>

theorem createTask_absent_parent_counterexample:
  "snd (createTask exRuntime ''2024-01-01 00:00:00'' exStore (exBody (Some (JNum 2)) None)) =
     Inr (exRow 4 2 0 (0, 4, 0, 0)) \<and>
   tasks (committed (fst (createTask exRuntime ''2024-01-01 00:00:00'' exStore
                            (exBody (Some (JNum 2)) None)))) =
     tasks (committed exStore) @ [exRow 4 2 0 (0, 4, 0, 0)]"
  by (simp add: ex_create_2_no_parent) (simp add: ex_defs)

text \<open>
  C6. A row created with a level that line 306 finds above 1, under an existing parent P
  (looked up by a non-zero parentID), has, at every level K below its own, P's level-K
  pointer, or P's identifier when that pointer is unset and P is at level K.
\<close>

theorem createTask_lower_pointers:
  assumes "createTask rt now c b = (c', Inr row)"
    and "jsGreaterThan rt (bodyLevel b) 1" and "parentID row \<noteq> 0"
    and "findTask (committed c) (parentID row) = Some P"
  shows "\<forall>K g. levelMap K = Some g \<and> K < taskLevel row \<longrightarrow>
           g row = (if g P \<noteq> 0 then g P else if taskLevel P = K then id_t P else 0)"
proof -
  from assms(1) obtain ls lv where
    ls: "levelIDs rt (beginTransaction c) (bodyLevel b) (bodyParent b) = Inr ls"
    and lv: "storedInteger rt (bodyLevel b) = Some lv"
    and row: "row = selfPatched (bodyLevel b) (newRow rt b now (autoInc c) lv (bodyParent b) ls)"
    by (rule createTask_success)
  have basics: "taskLevel row = lv" "parentID row = bodyParent b"
    by (simp_all add: row selfPatched_sel newRow_sel)
  have not1: "bodyLevel b \<noteq> JNum 1"
    using assms(2) by (auto simp: jsGreaterThan_def)
  have stored: "bodyLevel b = JNum 2 \<Longrightarrow> lv = 2" "bodyLevel b = JNum 3 \<Longrightarrow> lv = 3"
    "bodyLevel b = JNum 4 \<Longrightarrow> lv = 4"
    using lv by (simp_all add: storedInteger_def)
  from ls assms(2,3,4) not1 stored show ?thesis
    unfolding basics
    by (auto simp: row selfPatched_sel newRow_sel levelMap_def levelIDs_begin inherit_def
        split: if_splits)
qed

theorem createTask_lower_pointers_witness:
  "createTask exRuntime ''2024-01-01 00:00:00'' exStore (exBody (Some (JNum 4)) (Some 3)) =
     (exAfter (exRow 4 4 3 (1, 2, 3, 4)), Inr (exRow 4 4 3 (1, 2, 3, 4))) \<and>
   findTask (committed exStore) 3 = Some (exRow 3 3 2 (1, 2, 3, 0)) \<and>
   level1ID (exRow 4 4 3 (1, 2, 3, 4)) = level1ID (exRow 3 3 2 (1, 2, 3, 0)) \<and>
   level2ID (exRow 4 4 3 (1, 2, 3, 4)) = level2ID (exRow 3 3 2 (1, 2, 3, 0)) \<and>
   level3ID (exRow 4 4 3 (1, 2, 3, 4)) = level3ID (exRow 3 3 2 (1, 2, 3, 0))"
proof -
  have lv: "taskLevel (exRow 4 4 3 (1, 2, 3, 4)) = 4" "parentID (exRow 4 4 3 (1, 2, 3, 4)) = 3"
    by (simp_all add: exRow_def)
  have par: "findTask (committed exStore) (parentID (exRow 4 4 3 (1, 2, 3, 4))) =
      Some (exRow 3 3 2 (1, 2, 3, 0))"
    by (simp add: lv ex_findTask)
  have nz: "level1ID (exRow 3 3 2 (1, 2, 3, 0)) \<noteq> 0" "level2ID (exRow 3 3 2 (1, 2, 3, 0)) \<noteq> 0"
    "level3ID (exRow 3 3 2 (1, 2, 3, 0)) \<noteq> 0"
    by (simp_all add: exRow_def)
  have g1: "jsGreaterThan exRuntime (bodyLevel (exBody (Some (JNum 4)) (Some 3))) 1"
    by (simp add: bodyLevel_def exBody_def jsGreaterThan_def)
  have g2: "parentID (exRow 4 4 3 (1, 2, 3, 4)) \<noteq> 0"
    by (simp add: lv)
  note main = createTask_lower_pointers [OF ex_create_4_under_3 g1 g2 par]
  from main [rule_format, of 1 level1ID]
  have "level1ID (exRow 4 4 3 (1, 2, 3, 4)) = level1ID (exRow 3 3 2 (1, 2, 3, 0))"
    using nz lv levelMap_simps(1) by simp
  moreover from main [rule_format, of 2 level2ID]
  have "level2ID (exRow 4 4 3 (1, 2, 3, 4)) = level2ID (exRow 3 3 2 (1, 2, 3, 0))"
    using nz lv levelMap_simps(2) by simp
  moreover from main [rule_format, of 3 level3ID]
  have "level3ID (exRow 4 4 3 (1, 2, 3, 4)) = level3ID (exRow 3 3 2 (1, 2, 3, 0))"
    using nz lv levelMap_simps(3) by simp
  ultimately show ?thesis
    using ex_create_4_under_3 ex_findTask(2) by simp
qed

section \<open>Deleting a task\<close>



lemma firstPass_subset:
  "set (firstPass f ts v s) \<subseteq> set s \<union> IdNum ` id_t ` set ts"
  unfolding firstPass_def
proof (induction ts arbitrary: s)
  case Nil
  show ?case by simp
next
  case (Cons a ts)
  let ?g = "\<lambda>s task. if loose_eq (f task) v then setAdd s (IdNum (id_t task)) else s"
  have "set (?g s a) \<subseteq> set s \<union> {IdNum (id_t a)}"
    by (auto simp: setAdd_def)
  with Cons.IH[of "?g s a"] show ?case
    by auto
qed

lemma closurePass_subset:
  "set (closurePass f ts s) \<subseteq> set s \<union> IdNum ` id_t ` set ts"
  using closurePass_grows[of f ts s] by auto

lemma closureLoop_subset:
  "set (closureLoop f ts s) \<subseteq> set s \<union> IdNum ` id_t ` set ts"
proof (induction f ts s rule: closureLoop.induct)
  case (1 f ts s)
  show ?case
  proof (cases "length s \<noteq> length (closurePass f ts s)")
    case True
    from "1.IH"[OF refl refl True] closurePass_subset[of f ts s]
    have "set (closureLoop f ts (closurePass f ts s)) \<subseteq> set s \<union> IdNum ` id_t ` set ts"
      by blast
    with True show ?thesis
      by (subst closureLoop.simps) (simp add: Let_def)
  next
    case False
    with closurePass_subset[of f ts s] show ?thesis
      by (subst closureLoop.simps) (simp add: Let_def)
  qed
qed

lemma idsToDelete_subset:
  "set (closureLoop f ts (firstPass f ts v [v])) \<subseteq> {v} \<union> IdNum ` id_t ` set ts"
  using closureLoop_subset[of f ts "firstPass f ts v [v]"] firstPass_subset[of f ts v "[v]"]
  by auto

lemma selectTasksById_empty:
  "numberOf v \<notin> id_t ` set (tasks (committed c)) \<Longrightarrow> selectTasksById (beginTransaction c) v = []"
proof -
  assume "numberOf v \<notin> id_t ` set (tasks (committed c))"
  then have "\<forall>x \<in> set (tasks (committed c)). id_t x \<noteq> numberOf v"
    by force
  then show ?thesis
    by (simp add: selectTasksById_def beginTransaction_def sql_eq_def filter_empty_conv)
qed

text \<open>
  C9. For an identifier that no task row has, deleteTask answers 404 "Task not found" and
  the committed store is unchanged.
\<close>

theorem deleteTask_not_found:
  assumes "numberOf taskId \<notin> id_t ` set (tasks (committed c))"
  shows "snd (deleteTask c taskId) = Inl (Error 404 ''Task not found'') \<and>
         committed (fst (deleteTask c taskId)) = committed c"
  using selectTasksById_empty[OF assms]
  by (simp add: deleteTask_def Let_def rollback_def beginTransaction_def)

lemma filter_filter_keep:
  "(\<And>x. x \<in> set xs \<Longrightarrow> P x \<Longrightarrow> Q x) \<Longrightarrow> filter P (filter Q xs) = filter P xs"
  by (induction xs) auto

lemma same_id_same_row:
  "distinct (map id_t ts) \<Longrightarrow> r \<in> set ts \<Longrightarrow> r' \<in> set ts \<Longrightarrow> id_t r = id_t r' \<Longrightarrow> r = r'"
  by (meson distinct_map inj_onD)

text \<open>
  C10. With identifiers unique in the task table (the primary key), deleteTask leaves every
  row of another project in place, whatever its ancestor columns hold: the closure runs
  over the rows of the deleted task's project only.
\<close>

theorem deleteTask_keeps_other_projects:
  assumes "distinct (map id_t (tasks (committed c)))"
    and "selectTasksById (beginTransaction c) taskId = t # rest"
  shows "filter (\<lambda>r. projectID r \<noteq> projectID t) (tasks (committed (fst (deleteTask c taskId)))) =
         filter (\<lambda>r. projectID r \<noteq> projectID t) (tasks (committed c))"
proof (cases "levelMap (taskLevel t)")
  case None
  with assms(2) show ?thesis
    by (simp add: deleteTask_def Let_def rollback_def beginTransaction_def)
next
  case (Some f)
  let ?c = "beginTransaction c"
  let ?all = "selectTasksByProject ?c (IdNum (projectID t))"
  let ?ids = "closureLoop f ?all (firstPass f ?all taskId [taskId])"
  have wk: "tasks (working ?c) = tasks (committed c)"
    by (simp add: beginTransaction_def)
  have t_in: "t \<in> set (tasks (committed c))" and t_id: "id_t t = numberOf taskId"
    using assms(2) Cons_eq_filterD[OF assms(2)[symmetric, unfolded selectTasksById_def]]
    by (auto simp: wk sql_eq_def)
  have res: "tasks (committed (fst (deleteTask c taskId))) =
      filter (\<lambda>r. \<not> (\<exists>v \<in> set ?ids. sql_eq (id_t r) v)) (tasks (committed c))"
    using assms(2) Some
    by (simp add: deleteTask_def Let_def commit_def setTasks_def wk)
  have keep: "\<not> (\<exists>v \<in> set ?ids. sql_eq (id_t r) v)"
    if r: "r \<in> set (tasks (committed c))" and other: "projectID r \<noteq> projectID t" for r
  proof
    assume "\<exists>v \<in> set ?ids. sql_eq (id_t r) v"
    then obtain v where v: "v \<in> set ?ids" "id_t r = numberOf v"
      by (auto simp: sql_eq_def)
    from v(1) idsToDelete_subset[of f ?all taskId]
    consider "v = taskId" | r' where "r' \<in> set ?all" "v = IdNum (id_t r')"
      by auto
    then show False
    proof cases
      case 1
      with v(2) t_id have "id_t r = id_t t" by simp
      with same_id_same_row[OF assms(1) r t_in] other show False by simp
    next
      case 2
      then have "r' \<in> set (tasks (committed c))" and "projectID r' = projectID t"
        by (auto simp: selectTasksByProject_def wk sql_eq_def)
      moreover from 2 v(2) have "id_t r = id_t r'" by simp
      ultimately show False
        using same_id_same_row[OF assms(1) r, of r'] other by auto
    qed
  qed
  show ?thesis
    unfolding res by (rule filter_filter_keep) (use keep in blast)
qed


lemmas deleteTask_defs = deleteTask_def beginTransaction_def rollback_def commit_def
  selectTasksById_def selectTasksByProject_def sql_eq_def loose_eq_def levelMap_def
  firstPass_def closurePass_def setAdd_def setTasks_def Let_def

lemma ex_delete_leaf:
  "deleteTask exStore (IdStr 3) =
     (\<lparr> committed = exDb\<lparr>tasks := [exRow 1 1 0 (1, 0, 0, 0), exRow 2 2 1 (1, 2, 0, 0)]\<rparr>,
        working = exDb\<lparr>tasks := [exRow 1 1 0 (1, 0, 0, 0), exRow 2 2 1 (1, 2, 0, 0)]\<rparr>,
        autoInc = 4 \<rparr>, Inr 2)"
  by (simp add: deleteTask_defs closureLoop.simps ex_defs)

lemma ex_delete_root:
  "deleteTask exStore (IdStr 1) =
     (\<lparr> committed = exDb\<lparr>tasks := []\<rparr>, working = exDb\<lparr>tasks := []\<rparr>, autoInc = 4 \<rparr>, Inr 4)"
  by (simp add: deleteTask_defs closureLoop.simps ex_defs)


lemma firstPass_mono:
  "set s \<subseteq> set (firstPass f ts v s)"
  unfolding firstPass_def
proof (induction ts arbitrary: s)
  case Nil
  show ?case by simp
next
  case (Cons a ts)
  let ?g = "\<lambda>s task. if loose_eq (f task) v then setAdd s (IdNum (id_t task)) else s"
  have "set s \<subseteq> set (?g s a)"
    by (auto simp: setAdd_def)
  with Cons.IH[of "?g s a"] show ?case
    by auto
qed

lemma firstPass_distinct:
  "distinct s \<Longrightarrow> distinct (firstPass f ts v s)"
  unfolding firstPass_def
proof (induction ts arbitrary: s)
  case Nil
  then show ?case by simp
next
  case (Cons a ts)
  let ?g = "\<lambda>s task. if loose_eq (f task) v then setAdd s (IdNum (id_t task)) else s"
  from Cons.prems have "distinct (?g s a)"
    by (auto simp: setAdd_def)
  from Cons.IH[OF this] show ?case
    by simp
qed

lemma firstPass_hits:
  "r \<in> set ts \<Longrightarrow> loose_eq (f r) v \<Longrightarrow> IdNum (id_t r) \<in> set (firstPass f ts v s)"
proof (induction ts arbitrary: s)
  case Nil
  then show ?case by simp
next
  case (Cons a ts)
  let ?g = "\<lambda>s task. if loose_eq (f task) v then setAdd s (IdNum (id_t task)) else s"
  have step: "firstPass f (a # ts) v s = firstPass f ts v (?g s a)"
    by (simp add: firstPass_def)
  show ?case
  proof (cases "r = a")
    case True
    with Cons.prems(2) have "IdNum (id_t r) \<in> set (?g s a)"
      by (auto simp: setAdd_def)
    with firstPass_mono[of "?g s a" f ts v] show ?thesis
      unfolding step by blast
  next
    case False
    with Cons.prems have "r \<in> set ts" by simp
    from Cons.IH[OF this Cons.prems(2)] show ?thesis
      unfolding step .
  qed
qed

lemma closurePass_distinct:
  "distinct s \<Longrightarrow> distinct (closurePass f ts s)"
  unfolding closurePass_def
proof (induction ts arbitrary: s)
  case Nil
  then show ?case by simp
next
  case (Cons a ts)
  let ?g = "\<lambda>s task. if IdNum (f task) \<in> set s \<and> IdNum (id_t task) \<notin> set s
                      then setAdd s (IdNum (id_t task)) else s"
  from Cons.prems have "distinct (?g s a)"
    by (auto simp: setAdd_def)
  from Cons.IH[OF this] show ?case
    by simp
qed

lemma closurePass_mono:
  "set s \<subseteq> set (closurePass f ts s)"
  using closurePass_grows[of f ts s] by auto

lemma closureLoop_mono_distinct:
  "set s \<subseteq> set (closureLoop f ts s) \<and> (distinct s \<longrightarrow> distinct (closureLoop f ts s))"
proof (induction f ts s rule: closureLoop.induct)
  case (1 f ts s)
  show ?case
  proof (cases "length s \<noteq> length (closurePass f ts s)")
    case True
    then have eq: "closureLoop f ts s = closureLoop f ts (closurePass f ts s)"
      by (subst closureLoop.simps) (simp add: Let_def)
    from "1.IH"[OF refl refl True] closurePass_mono[of s f ts] closurePass_distinct[of s f ts]
    show ?thesis
      unfolding eq by blast
  next
    case False
    then have eq: "closureLoop f ts s = closurePass f ts s"
      by (subst closureLoop.simps) (simp add: Let_def)
    from closurePass_mono[of s f ts] closurePass_distinct[of s f ts]
    show ?thesis
      unfolding eq by blast
  qed
qed

lemma length_filter_ids:
  assumes "distinct (map id_t ts)" and "I \<subseteq> id_t ` set ts"
  shows "length (filter (\<lambda>r. id_t r \<in> I) ts) = card I"
proof -
  from assms(1) have d: "distinct ts" and inj: "inj_on id_t (set ts)"
    by (simp_all add: distinct_map)
  have "length (filter (\<lambda>r. id_t r \<in> I) ts) = card {r \<in> set ts. id_t r \<in> I}"
    using d by (simp add: distinct_length_filter Int_def conj_commute)
  also have "\<dots> = card (id_t ` {r \<in> set ts. id_t r \<in> I})"
    by (rule card_image[symmetric]) (rule inj_on_subset[OF inj], blast)
  also have "id_t ` {r \<in> set ts. id_t r \<in> I} = I"
    using assms(2) by auto
  finally show ?thesis .
qed

lemma ex_two_projects_delete:
  "tasks (committed (fst (deleteTask exTwoProjects (IdStr 1)))) =
     [(exRow 4 1 0 (1, 0, 0, 0))\<lparr>projectID := 2\<rparr>]"
  by (simp add: deleteTask_defs closureLoop.simps exTwoProjects_def ex_defs)

theorem deleteTask_keeps_other_projects_witness:
  "tasks (committed (fst (deleteTask exTwoProjects (IdStr 1)))) =
     [(exRow 4 1 0 (1, 0, 0, 0))\<lparr>projectID := 2\<rparr>] \<and>
   filter (\<lambda>r. projectID r \<noteq> 1) (tasks (committed (fst (deleteTask exTwoProjects (IdStr 1))))) =
     filter (\<lambda>r. projectID r \<noteq> 1) (tasks (committed exTwoProjects)) \<and>
   level1ID ((exRow 4 1 0 (1, 0, 0, 0))\<lparr>projectID := 2\<rparr>) = 1"
proof -
  have d: "distinct (map id_t (tasks (committed exTwoProjects)))"
    by (simp add: exTwoProjects_def Let_def ex_defs)
  have s: "selectTasksById (beginTransaction exTwoProjects) (IdStr 1) = exRow 1 1 0 (1, 0, 0, 0) # []"
    by (simp add: selectTasksById_def beginTransaction_def sql_eq_def exTwoProjects_def Let_def ex_defs)
  have p: "projectID (exRow 1 1 0 (1, 0, 0, 0)) = 1"
    by (simp add: exRow_def)
  from deleteTask_keeps_other_projects [OF d s]
  have "filter (\<lambda>r. projectID r \<noteq> 1) (tasks (committed (fst (deleteTask exTwoProjects (IdStr 1))))) =
     filter (\<lambda>r. projectID r \<noteq> 1) (tasks (committed exTwoProjects))"
    by (simp only: p)
  moreover have "level1ID ((exRow 4 1 0 (1, 0, 0, 0))\<lparr>projectID := 2\<rparr>) = 1"
    by (simp add: exRow_def)
  ultimately show ?thesis
    using ex_two_projects_delete by simp
qed

text \<open>
  What the DELETE handler reports, in general: when the task to delete carries its own
  identifier in the column of its level (as every created row does) and identifiers are
  unique, \<open>deletedCount\<close> is one more than the number of rows removed, because the set
  holds the route parameter (a string) next to the number of the same task.
\<close>

lemma deleteTask_count_is_rows_plus_one:
  assumes dist: "distinct (map id_t (tasks (committed c)))"
    and sel: "selectTasksById (beginTransaction c) (IdStr n) = t # rest"
    and lm: "levelMap (taskLevel t) = Some f"
    and own: "f t = id_t t"
  shows "snd (deleteTask c (IdStr n)) =
           Inr (Suc (length (tasks (committed c)) -
                     length (tasks (committed (fst (deleteTask c (IdStr n)))))))"
proof -
  let ?c = "beginTransaction c"
  let ?ts = "tasks (committed c)"
  let ?all = "selectTasksByProject ?c (IdNum (projectID t))"
  let ?ids = "closureLoop f ?all (firstPass f ?all (IdStr n) [IdStr n])"
  define I where "I = {i. IdNum i \<in> set ?ids}"
  have wk: "tasks (working ?c) = ?ts"
    by (simp add: beginTransaction_def)
  have t_in: "t \<in> set ?ts" and t_id: "id_t t = n"
    using Cons_eq_filterD[OF sel[symmetric, unfolded selectTasksById_def]]
    by (auto simp: wk sql_eq_def)
  have all_sub: "set ?all \<subseteq> set ?ts"
    by (auto simp: selectTasksByProject_def wk)
  have t_all: "t \<in> set ?all"
    using t_in by (simp add: selectTasksByProject_def wk sql_eq_def)
  have res: "tasks (committed (fst (deleteTask c (IdStr n)))) =
      filter (\<lambda>r. \<not> (\<exists>v \<in> set ?ids. sql_eq (id_t r) v)) ?ts"
    and cnt: "snd (deleteTask c (IdStr n)) = Inr (length ?ids)"
    using sel lm by (simp_all add: deleteTask_def Let_def commit_def setTasks_def wk)
  have sub: "set ?ids \<subseteq> {IdStr n} \<union> IdNum ` id_t ` set ?all"
    by (rule idsToDelete_subset)
  have first: "set (firstPass f ?all (IdStr n) [IdStr n]) \<subseteq> set ?ids"
    and dst: "distinct ?ids"
    using closureLoop_mono_distinct[of "firstPass f ?all (IdStr n) [IdStr n]" f ?all]
      firstPass_distinct[of "[IdStr n]" f ?all "IdStr n"]
    by simp_all
  have str_in: "IdStr n \<in> set ?ids"
    using first firstPass_mono[of "[IdStr n]" f ?all "IdStr n"] by auto
  have num_in: "IdNum n \<in> set ?ids"
    using first firstPass_hits[OF t_all, of f "IdStr n" "[IdStr n]"] own t_id
    by (auto simp: loose_eq_def)
  have split: "set ?ids = insert (IdStr n) (IdNum ` I)"
    using sub str_in unfolding I_def by auto
  have I_sub: "I \<subseteq> id_t ` set ?ts"
    using sub all_sub unfolding I_def by auto
  have n_I: "n \<in> I"
    using num_in by (simp add: I_def)
  have "finite I"
    using I_sub by (rule finite_subset) simp
  have "length ?ids = card (set ?ids)"
    using dst by (simp add: distinct_card)
  also have "\<dots> = Suc (card (IdNum ` I))"
    unfolding split using \<open>finite I\<close> by (subst card_insert_disjoint) auto
  also have "card (IdNum ` I) = card I"
    by (rule card_image) (simp add: inj_on_def)
  finally have len: "length ?ids = Suc (card I)" .
  have removed: "(\<exists>v \<in> set ?ids. sql_eq (id_t r) v) \<longleftrightarrow> id_t r \<in> I" for r :: task
    unfolding split using n_I by (auto simp: sql_eq_def)
  have "length ?ts - length (filter (\<lambda>r. \<not> (\<exists>v \<in> set ?ids. sql_eq (id_t r) v)) ?ts) =
      length (filter (\<lambda>r. \<exists>v \<in> set ?ids. sql_eq (id_t r) v) ?ts)"
    using sum_length_filter_compl[of "\<lambda>r. \<exists>v \<in> set ?ids. sql_eq (id_t r) v" ?ts] by simp
  also have "\<dots> = length (filter (\<lambda>r. id_t r \<in> I) ?ts)"
    by (simp only: removed)
  also have "\<dots> = card I"
    by (rule length_filter_ids[OF dist I_sub])
  finally show ?thesis
    unfolding cnt res len by simp
qed

text \<open>
  C1 fails on the code in its count. Deleting the leaf task 3 of the example store removes
  exactly one row, and the response reports \<open>deletedCount = 2\<close>; deleting task 1 with its
  two descendants removes three rows and reports 4.
\<close>

theorem deleteTask_deletedCount_off_by_one:
  "snd (deleteTask exStore (IdStr 3)) = Inr 2 \<and>
   tasks (committed (fst (deleteTask exStore (IdStr 3)))) =
     [exRow 1 1 0 (1, 0, 0, 0), exRow 2 2 1 (1, 2, 0, 0)] \<and>
   snd (deleteTask exStore (IdStr 1)) = Inr 4 \<and>
   tasks (committed (fst (deleteTask exStore (IdStr 1)))) = []"
  by (simp add: ex_delete_leaf ex_delete_root)

theorem deleteTask_not_found_witness:
  "snd (deleteTask exStore (IdStr 9)) = Inl (Error 404 ''Task not found'') \<and>
   committed (fst (deleteTask exStore (IdStr 9))) = committed exStore"
proof -
  have "numberOf (IdStr 9) \<notin> id_t ` set (tasks (committed exStore))"
    by (simp add: ex_defs)
  then show ?thesis
    by (rule deleteTask_not_found)
qed

section \<open>Deleting a project\<close>

text \<open>
  C8. deleteProject is all or nothing. When no project row has the identifier, the answer
  is 404 "Project not found" and the committed store is unchanged, although the tasks of
  that project were deleted inside the transaction. When the project row exists, the
  committed store loses that row and every task whose projectID matches, and nothing else.
\<close>

theorem deleteProject_all_or_nothing:
  "(numberOf projectId \<notin> id_p ` set (projects (committed c)) \<longrightarrow>
      snd (deleteProject c projectId) = Inl (Error 404 ''Project not found'') \<and>
      committed (fst (deleteProject c projectId)) = committed c) \<and>
   (numberOf projectId \<in> id_p ` set (projects (committed c)) \<longrightarrow>
      snd (deleteProject c projectId) = Inr () \<and>
      projects (committed (fst (deleteProject c projectId))) =
        filter (\<lambda>p. id_p p \<noteq> numberOf projectId) (projects (committed c)) \<and>
      tasks (committed (fst (deleteProject c projectId))) =
        filter (\<lambda>t. projectID t \<noteq> numberOf projectId) (tasks (committed c)))"
proof -
  let ?hit = "filter (\<lambda>p. id_p p = numberOf projectId) (projects (committed c))"
  have hit: "?hit = [] \<longleftrightarrow> numberOf projectId \<notin> id_p ` set (projects (committed c))"
    by (force simp: filter_empty_conv)
  show ?thesis
    using hit
    by (simp add: deleteProject_def Let_def beginTransaction_def rollback_def commit_def
        setTasks_def setProjects_def sql_eq_def)
qed

theorem deleteProject_all_or_nothing_witness:
  "snd (deleteProject exOrphans (IdStr 1)) = Inl (Error 404 ''Project not found'') \<and>
   committed (fst (deleteProject exOrphans (IdStr 1))) = committed exOrphans \<and>
   tasks (committed exOrphans) = tasks exDb \<and>
   snd (deleteProject exStore (IdStr 1)) = Inr () \<and>
   projects (committed (fst (deleteProject exStore (IdStr 1)))) = [] \<and>
   tasks (committed (fst (deleteProject exStore (IdStr 1)))) = []"
proof -
  have absent: "numberOf (IdStr 1) \<notin> id_p ` set (projects (committed exOrphans))"
    by (simp add: exOrphans_def)
  have present: "numberOf (IdStr 1) \<in> id_p ` set (projects (committed exStore))"
    by (simp add: ex_defs)
  from deleteProject_all_or_nothing [of "IdStr 1" exOrphans] absent
  have a: "snd (deleteProject exOrphans (IdStr 1)) = Inl (Error 404 ''Project not found'')"
    "committed (fst (deleteProject exOrphans (IdStr 1))) = committed exOrphans"
    by blast+
  from deleteProject_all_or_nothing [of "IdStr 1" exStore] present
  have b: "snd (deleteProject exStore (IdStr 1)) = Inr ()"
    "projects (committed (fst (deleteProject exStore (IdStr 1)))) =
       filter (\<lambda>p. id_p p \<noteq> numberOf (IdStr 1)) (projects (committed exStore))"
    "tasks (committed (fst (deleteProject exStore (IdStr 1)))) =
       filter (\<lambda>t. projectID t \<noteq> numberOf (IdStr 1)) (tasks (committed exStore))"
    by blast+
  have "tasks (committed exOrphans) = tasks exDb"
    by (simp add: exOrphans_def)
  moreover have "filter (\<lambda>p. id_p p \<noteq> numberOf (IdStr 1)) (projects (committed exStore)) = []"
    by (simp add: ex_defs)
  moreover have "filter (\<lambda>t. projectID t \<noteq> numberOf (IdStr 1)) (tasks (committed exStore)) = []"
    by (simp add: ex_defs)
  ultimately show ?thesis
    using a b by simp
qed

section \<open>Updating a task\<close>

lemma updateTask_committed:
  assumes "selectTasksById (beginTransaction c) taskId = t # rest"
    and "\<not> noFields u"
    and "(case u_dueDate u of None \<Rightarrow> Some None | Some d \<Rightarrow> map_option Some (dueDateValue rt d)) = Some due"
  shows "tasks (committed (fst (updateTask rt now c taskId u))) =
           map (\<lambda>r. if id_t r = numberOf taskId then applyUpdates rt u due t now r else r)
             (tasks (committed c))"
proof -
  let ?c = "beginTransaction c"
  let ?ts = "map (\<lambda>r. if sql_eq (id_t r) taskId then applyUpdates rt u due t now r else r)
               (tasks (working ?c))"
  let ?c1 = "setTasks ?c ?ts"
  have wk: "tasks (working ?c) = tasks (committed c)"
    by (simp add: beginTransaction_def)
  have cm: "tasks (committed (commit ?c1)) = ?ts" "tasks (committed (rollback (commit ?c1))) = ?ts"
    by (simp_all add: commit_def rollback_def setTasks_def)
  have t_in: "t \<in> set (tasks (working ?c))" "sql_eq (id_t t) taskId"
    using Cons_eq_filterD[OF assms(1)[symmetric, unfolded selectTasksById_def]] by auto
  have id_keep: "id_t (applyUpdates rt u due t now r) = id_t r" for r
    by (simp add: applyUpdates_def)
  have "applyUpdates rt u due t now t \<in> set (selectTasksById ?c1 taskId)"
    using t_in by (force simp: selectTasksById_def setTasks_def id_keep)
  then obtain x xs where sel: "selectTasksById ?c1 taskId = x # xs"
    by (cases "selectTasksById ?c1 taskId") auto
  have "tasks (committed (fst (updateTask rt now c taskId u))) = ?ts"
    using assms sel cm
    by (simp add: updateTask_def Let_def split: option.splits)
  then show ?thesis
    by (simp add: wk sql_eq_def)
qed

text \<open>
  C4. When the update carries estHours and the current task is below level 1, the stored
  estPrevHours of the task afterwards is the text that \<^verbatim>\<open>JSON.stringify\<close> gives for the
  one-element array holding the estimate the task had before, whatever the column held;
  the new estimate is stored. (An update whose dueDate is not a date fails before the
  statement and is excluded.)
\<close>

theorem updateTask_replaces_estPrevHours:
  assumes "selectTasksById (beginTransaction c) taskId = t # rest"
    and "u_estHours u = Some h" and "taskLevel t > 1"
    and "\<forall>d. u_dueDate u = Some d \<longrightarrow> dueDateValue rt d \<noteq> None"
  shows "(\<exists>r \<in> set (tasks (committed (fst (updateTask rt now c taskId u)))). id_t r = numberOf taskId) \<and>
         (\<forall>r \<in> set (tasks (committed (fst (updateTask rt now c taskId u)))).
            id_t r = numberOf taskId \<longrightarrow>
              estPrevHours r = JSON_stringify rt (JArr [JNum (estHours t)]) \<and>
              estHours r = h)"
proof -
  from assms(4) obtain due where
    due: "(case u_dueDate u of None \<Rightarrow> Some None | Some d \<Rightarrow> map_option Some (dueDateValue rt d)) = Some due"
    by (cases "u_dueDate u") auto
  have nf: "\<not> noFields u"
    using assms(2) by (simp add: noFields_def)
  note ts = updateTask_committed[OF assms(1) nf due]
  have t_in: "t \<in> set (tasks (committed c))" "id_t t = numberOf taskId"
    using Cons_eq_filterD[OF assms(1)[symmetric, unfolded selectTasksById_def]]
    by (auto simp: beginTransaction_def sql_eq_def)
  have upd: "estPrevHours (applyUpdates rt u due t now r) = JSON_stringify rt (JArr [JNum (estHours t)])"
    "estHours (applyUpdates rt u due t now r) = h" "id_t (applyUpdates rt u due t now r) = id_t r" for r
    using assms(2,3) by (simp_all add: applyUpdates_def)
  have "applyUpdates rt u due t now t \<in> set (tasks (committed (fst (updateTask rt now c taskId u))))"
    unfolding ts using t_in by force
  then have ex: "\<exists>r \<in> set (tasks (committed (fst (updateTask rt now c taskId u)))). id_t r = numberOf taskId"
    using upd(3) t_in(2) by metis
  have "estPrevHours r = JSON_stringify rt (JArr [JNum (estHours t)]) \<and> estHours r = h"
    if "r \<in> set (tasks (committed (fst (updateTask rt now c taskId u))))"
      and "id_t r = numberOf taskId" for r
    using that upd unfolding ts by (auto split: if_splits)
  with ex show ?thesis
    by simp
qed

lemmas updateTask_defs = updateTask_def updateTask_response_def applyUpdates_def noFields_def
  dueDateValue_def formatDateForMySQL_def beginTransaction_def rollback_def commit_def
  selectTasksById_def sql_eq_def setTasks_def Let_def

lemma ex_update_hours:
  "map (\<lambda>r. (id_t r, estHours r, estPrevHours r))
     (tasks (committed (fst (updateTask exRuntime ''2024-02-02 00:00:00'' (exStoreWith 3 ''[1,2]'' ''{}'')
        (IdStr 2) (exUpdates\<lparr>u_estHours := Some 5\<rparr>))))) =
   [(1, 0, ''[]''), (2, 5, ''[3]''), (3, 0, ''[]'')]"
  by (simp add: updateTask_defs exStoreWith_def exUpdates_def exRuntime_def exParse_def
      exStringify_def ex_defs)


lemma ex_update_current:
  "selectTasksById (beginTransaction (exStoreWith 3 ''[1,2]'' ''{}'')) (IdStr 2) =
     (exRow 2 2 1 (1, 2, 0, 0))\<lparr>estHours := 3, estPrevHours := ''[1,2]'', info := ''{}''\<rparr> # []"
  by (simp add: selectTasksById_def beginTransaction_def sql_eq_def exStoreWith_def Let_def ex_defs)

theorem updateTask_replaces_estPrevHours_witness:
  "map (\<lambda>r. (id_t r, estHours r, estPrevHours r))
     (tasks (committed (fst (updateTask exRuntime ''2024-02-02 00:00:00'' (exStoreWith 3 ''[1,2]'' ''{}'')
        (IdStr 2) (exUpdates\<lparr>u_estHours := Some 5\<rparr>))))) =
   [(1, 0, ''[]''), (2, 5, ''[3]''), (3, 0, ''[]'')] \<and>
   (\<exists>r \<in> set (tasks (committed (fst (updateTask exRuntime ''2024-02-02 00:00:00''
        (exStoreWith 3 ''[1,2]'' ''{}'') (IdStr 2) (exUpdates\<lparr>u_estHours := Some 5\<rparr>))))).
      id_t r = 2)"
proof -
  have h: "u_estHours (exUpdates\<lparr>u_estHours := Some 5\<rparr>) = Some 5"
    by simp
  have l: "taskLevel ((exRow 2 2 1 (1, 2, 0, 0))\<lparr>estHours := 3, estPrevHours := ''[1,2]'', info := ''{}''\<rparr>) > 1"
    by (simp add: exRow_def)
  have d: "\<forall>d. u_dueDate (exUpdates\<lparr>u_estHours := Some 5\<rparr>) = Some d \<longrightarrow> dueDateValue exRuntime d \<noteq> None"
    by (simp add: exUpdates_def)
  from updateTask_replaces_estPrevHours [OF ex_update_current h l d, of "''2024-02-02 00:00:00''"]
  have "\<exists>r \<in> set (tasks (committed (fst (updateTask exRuntime ''2024-02-02 00:00:00''
        (exStoreWith 3 ''[1,2]'' ''{}'') (IdStr 2) (exUpdates\<lparr>u_estHours := Some 5\<rparr>))))).
      id_t r = 2"
    by simp
  with ex_update_hours show ?thesis
    by blast
qed

section \<open>Decoding the persisted texts\<close>

text \<open>
  \<open>safeJsonParse\<close> gives the default for a text that is empty, blank or rejected by
  \<^verbatim>\<open>JSON.parse\<close>; the reads that go through it, and the 201 response of POST /tasks with
  its own \<^verbatim>\<open>try\<close>, always produce a value.
\<close>

lemma safeJsonParse_malformed:
  "trim s = [] \<or> JSON_parse rt s = None \<Longrightarrow> safeJsonParse rt (JStr s) d = d"
  by (auto simp: safeJsonParse_def)

lemma trim_empty: "trim [] = []"
  by (simp add: trim_def)

lemma createTask_response_malformed:
  "estPrevHours row \<noteq> [] \<and> JSON_parse rt (estPrevHours row) = None \<or>
   info row \<noteq> [] \<and> JSON_parse rt (info row) = None \<Longrightarrow>
   createTask_response rt row = \<lparr> r_row = row, r_estPrevHours = JArr [], r_info = JObj [] \<rparr>"
  by (auto simp: createTask_response_def split: option.splits)

lemma getProjectTasks_malformed:
  assumes "getProjectTasks rt c projectId = Inr rs" and "r \<in> set rs"
  shows "(estPrevHours (r_row r) = [] \<or> JSON_parse rt (estPrevHours (r_row r)) = None
            \<longrightarrow> r_estPrevHours r = JArr []) \<and>
         (info (r_row r) = [] \<or> JSON_parse rt (info (r_row r)) = None \<longrightarrow> r_info r = JObj [])"
  using assms
  by (auto simp: getProjectTasks_def safeJsonParse_malformed split: if_splits)

lemma filter_map_same_key:
  "(\<And>x. key (g x) = key x) \<Longrightarrow> filter (\<lambda>x. P (key x)) (map g xs) = map g (filter (\<lambda>x. P (key x)) xs)"
  by (induction xs) auto

text \<open>
  The read-back of PUT /tasks/:id does not: when the stored \<open>estPrevHours\<close> of the task
  is a text that \<^verbatim>\<open>JSON.parse\<close> rejects and the update leaves the column alone, the
  handler answers 500 after it has committed the update.
\<close>

lemma updateTask_readback_throws:
  assumes sel: "selectTasksById (beginTransaction c) taskId = t # rest"
    and nf: "\<not> noFields u" and hrs: "u_estHours u = None"
    and due: "\<forall>d. u_dueDate u = Some d \<longrightarrow> dueDateValue rt d \<noteq> None"
    and bad: "JSON_parse rt (estPrevHours t) = None"
  shows "snd (updateTask rt now c taskId u) = Inl (Error 500 ''Failed to update task'')"
proof -
  from due obtain dv where
    dv: "(case u_dueDate u of None \<Rightarrow> Some None | Some d \<Rightarrow> map_option Some (dueDateValue rt d)) = Some dv"
    by (cases "u_dueDate u") auto
  let ?c = "beginTransaction c"
  let ?g = "\<lambda>r. if sql_eq (id_t r) taskId then applyUpdates rt u dv t now r else r"
  let ?c1 = "setTasks ?c (map ?g (tasks (working ?c)))"
  have key: "id_t (?g r) = id_t r" for r
    by (simp add: applyUpdates_def)
  have "selectTasksById ?c1 taskId = map ?g (selectTasksById ?c taskId)"
    unfolding selectTasksById_def
    using filter_map_same_key[of id_t ?g "\<lambda>i. sql_eq i taskId" "tasks (working ?c)", OF key]
    by (simp add: setTasks_def)
  also have "\<dots> = ?g t # map ?g rest"
    by (simp add: sel)
  finally have sel1: "selectTasksById ?c1 taskId = ?g t # map ?g rest" .
  have "sql_eq (id_t t) taskId"
    using Cons_eq_filterD[OF sel[symmetric, unfolded selectTasksById_def]] by auto
  then have "estPrevHours (?g t) = estPrevHours t"
    using hrs by (simp add: applyUpdates_def)
  then have "updateTask_response rt (?g t) = None"
    using bad by (simp add: updateTask_response_def)
  then show ?thesis
    using sel nf dv sel1 by (simp add: updateTask_def Let_def)
qed

text \<open>
  C7 fails on the code at the read-back of PUT /tasks/:id. Renaming task 2 of the example
  store answers 500 "Failed to update task" when the stored \<open>estPrevHours\<close> is the text
  \<^verbatim>\<open>garbage\<close>, when it is empty, and when the stored \<open>info\<close> is \<^verbatim>\<open>garbage\<close>, and the new
  name is committed all the same; \<open>safeJsonParse\<close> turns the same texts into the
  defaults.
\<close>

theorem updateTask_readback_surfaces_decode_failure:
  "snd (updateTask exRuntime ''2024-02-02 00:00:00'' (exStoreWith 0 ''garbage'' ''{}'') (IdStr 2)
          (exUpdates\<lparr>u_name := Some ''renamed''\<rparr>)) = Inl (Error 500 ''Failed to update task'') \<and>
   snd (updateTask exRuntime ''2024-02-02 00:00:00'' (exStoreWith 0 [] ''{}'') (IdStr 2)
          (exUpdates\<lparr>u_name := Some ''renamed''\<rparr>)) = Inl (Error 500 ''Failed to update task'') \<and>
   snd (updateTask exRuntime ''2024-02-02 00:00:00'' (exStoreWith 0 ''[]'' ''garbage'') (IdStr 2)
          (exUpdates\<lparr>u_name := Some ''renamed''\<rparr>)) = Inl (Error 500 ''Failed to update task'') \<and>
   map name (tasks (committed (fst (updateTask exRuntime ''2024-02-02 00:00:00''
          (exStoreWith 0 ''garbage'' ''{}'') (IdStr 2) (exUpdates\<lparr>u_name := Some ''renamed''\<rparr>))))) =
     [''T'', ''renamed'', ''T''] \<and>
   safeJsonParse exRuntime (JStr ''garbage'') (JArr []) = JArr [] \<and>
   safeJsonParse exRuntime (JStr []) (JArr []) = JArr [] \<and>
   safeJsonParse exRuntime (JStr ''garbage'') (JObj []) = JObj []"
  by (simp add: updateTask_defs exStoreWith_def exUpdates_def exRuntime_def exParse_def ex_defs
      safeJsonParse_def trim_def isWhite_def)

section \<open>Rebuilding the tree\<close>

lemma buildTaskHierarchy_nodes:
  "buildTaskHierarchy rt allTasks parentId level =
     map (buildNode rt allTasks level) (filter (sel parentId level) allTasks)"
  by (subst buildTaskHierarchy.simps) (simp add: buildNode_def)

lemma children_induct [case_names node]:
  assumes "\<And>n. (\<And>c. c \<in> set (children n) \<Longrightarrow> P c) \<Longrightarrow> P n"
  shows "P n"
proof (induction n)
  case (TaskData r i e f ss as sas)
  show ?case
  proof (rule assms)
    fix c assume "c \<in> set (children (TaskData r i e f ss as sas))"
    then show "P c"
      using TaskData by (auto split: option.splits)
  qed
qed

lemma flatten_children:
  "flatten n = td_row n # flattenForest (children n)"
  by (cases n) (auto simp: flattenForest_def split: option.splits)

lemma wfNode_row:
  "wfNode rt p l n \<Longrightarrow> parentID (td_row n) = p \<and> taskLevel (td_row n) = l"
  by (cases n) simp

lemma wfNode_children:
  "wfNode rt p l n \<Longrightarrow> c \<in> set (children n) \<Longrightarrow> wfNode rt (id_t (td_row n)) (l + 1) c"
  by (cases n) (auto simp: list_all_iff split: if_splits option.splits)

lemma flattenForest_Cons:
  "flattenForest (n # ns) = flatten n @ flattenForest ns"
  by (simp add: flattenForest_def)

lemma in_flattenForest:
  "t \<in> set (flattenForest ns) \<longleftrightarrow> (\<exists>n \<in> set ns. t \<in> set (flatten n))"
  by (auto simp: flattenForest_def)

lemma flatten_member:
  "n \<in> set ns \<Longrightarrow> set (flatten n) \<subseteq> set (flattenForest ns)"
  by (auto simp: flattenForest_def)

lemma flatten_child:
  "c \<in> set (children n) \<Longrightarrow> set (flatten c) \<subseteq> set (flatten n)"
  using flatten_member[of c "children n"] by (subst flatten_children) auto

lemma row_in_flatten:
  "td_row n \<in> set (flatten n)"
  by (subst flatten_children) simp

lemma level_ge:
  "wfNode rt p l n \<Longrightarrow> t \<in> set (flatten n) \<Longrightarrow> l \<le> taskLevel t"
proof (induction n arbitrary: p l rule: children_induct)
  case (node n)
  from node.prems(2) consider "t = td_row n" | c where "c \<in> set (children n)" "t \<in> set (flatten c)"
    by (subst (asm) flatten_children) (auto simp: in_flattenForest)
  then show ?case
  proof cases
    case 1
    with wfNode_row[OF node.prems(1)] show ?thesis by simp
  next
    case 2
    from node.IH[OF 2(1) wfNode_children[OF node.prems(1) 2(1)] 2(2)] show ?thesis
      by simp
  qed
qed

lemma filter_flatten_below:
  assumes "wfNode rt p l n" and "k < l"
  shows "filter (sel q k) (flatten n) = []"
proof -
  have "\<forall>t \<in> set (flatten n). l \<le> taskLevel t"
    using level_ge[OF assms(1)] by blast
  with assms(2) have "\<forall>t \<in> set (flatten n). \<not> sel q k t"
    by force
  then show ?thesis
    by (simp add: filter_empty_conv)
qed

lemma filter_forest_empty:
  "(\<And>n. n \<in> set ns \<Longrightarrow> filter P (flatten n) = []) \<Longrightarrow> filter P (flattenForest ns) = []"
  by (induction ns) (simp_all add: flattenForest_def)

lemma filter_flatten_same:
  assumes "wfNode rt p l n"
  shows "filter (sel q l) (flatten n) = (if p = q then [td_row n] else [])"
proof -
  have "filter (sel q l) (flattenForest (children n)) = []"
  proof (rule filter_forest_empty)
    fix c assume "c \<in> set (children n)"
    from wfNode_children[OF assms this] show "filter (sel q l) (flatten c) = []"
      by (rule filter_flatten_below) simp
  qed
  with wfNode_row[OF assms] show ?thesis
    by (subst flatten_children) auto
qed

lemma filter_forest_same:
  "(\<And>n. n \<in> set ns \<Longrightarrow> wfNode rt p l n) \<Longrightarrow>
   filter (sel q l) (flattenForest ns) = (if p = q then map td_row ns else [])"
proof (induction ns)
  case Nil
  show ?case by (simp add: flattenForest_def)
next
  case (Cons n ns)
  have "wfNode rt p l n" using Cons.prems by simp
  from filter_flatten_same[OF this, of q] Cons.IH Cons.prems show ?case
    by (simp add: flattenForest_Cons)
qed

lemma filter_flatten_foreign:
  "wfNode rt p l n \<Longrightarrow> l < k \<Longrightarrow> q \<notin> id_t ` set (flatten n) \<Longrightarrow>
   filter (sel q k) (flatten n) = []"
proof (induction n arbitrary: p l rule: children_induct)
  case (node n)
  have row: "\<not> sel q k (td_row n)"
    using wfNode_row[OF node.prems(1)] node.prems(2) by simp
  have ch: "wfNode rt (id_t (td_row n)) (l + 1) c" if "c \<in> set (children n)" for c
    using wfNode_children[OF node.prems(1) that] .
  have idn: "id_t (td_row n) \<noteq> q"
    using node.prems(3) row_in_flatten[of n] by force
  have "filter (sel q k) (flattenForest (children n)) = []"
  proof (cases "k = l + 1")
    case True
    with filter_forest_same[of "children n" rt "id_t (td_row n)" "l + 1" q] ch idn
    show ?thesis by simp
  next
    case False
    show ?thesis
    proof (rule filter_forest_empty)
      fix c assume c: "c \<in> set (children n)"
      have "q \<notin> id_t ` set (flatten c)"
        using node.prems(3) flatten_child[OF c] by blast
      from node.IH[OF c ch[OF c] _ this] False node.prems(2)
      show "filter (sel q k) (flatten c) = []" by simp
    qed
  qed
  with row show ?case
    by (subst flatten_children) simp
qed

lemma filter_forest_member:
  "(\<And>n. n \<in> set cs \<Longrightarrow> wfNode rt p l n) \<Longrightarrow> distinct (map id_t (flattenForest cs)) \<Longrightarrow>
   l < k \<Longrightarrow> c0 \<in> set cs \<Longrightarrow> q \<in> id_t ` set (flatten c0) \<Longrightarrow>
   filter (sel q k) (flattenForest cs) = filter (sel q k) (flatten c0)"
proof (induction cs)
  case Nil
  then show ?case by simp
next
  case (Cons c cs)
  have disj: "id_t ` set (flatten c) \<inter> id_t ` set (flattenForest cs) = {}"
    and dist: "distinct (map id_t (flattenForest cs))"
    using Cons.prems(2) by (auto simp: flattenForest_Cons)
  show ?case
  proof (cases "q \<in> id_t ` set (flatten c)")
    case True
    then have "q \<notin> id_t ` set (flattenForest cs)"
      using disj by auto
    have "filter (sel q k) (flatten n) = []" if n: "n \<in> set cs" for n
    proof (rule filter_flatten_foreign[of rt p l n k q])
      show "wfNode rt p l n" using Cons.prems(1) n by simp
      show "l < k" by (rule Cons.prems(3))
      show "q \<notin> id_t ` set (flatten n)"
        using \<open>q \<notin> id_t ` set (flattenForest cs)\<close> flatten_member[OF n] by blast
    qed
    then have rest: "filter (sel q k) (flattenForest cs) = []"
      by (rule filter_forest_empty)
    have "c0 = c"
    proof (rule ccontr)
      assume "c0 \<noteq> c"
      with Cons.prems(4) have "c0 \<in> set cs" by simp
      with Cons.prems(5) have "q \<in> id_t ` set (flattenForest cs)"
        using flatten_member[of c0 cs] by blast
      with \<open>q \<notin> id_t ` set (flattenForest cs)\<close> show False by simp
    qed
    with rest show ?thesis
      by (simp add: flattenForest_Cons)
  next
    case False
    with Cons.prems(5) have "c0 \<noteq> c" by auto
    with Cons.prems(4) have c0: "c0 \<in> set cs" by simp
    have "filter (sel q k) (flatten c) = []"
      using filter_flatten_foreign[of rt p l c k q] Cons.prems(1,3) False by simp
    moreover have "filter (sel q k) (flattenForest cs) = filter (sel q k) (flatten c0)"
      using Cons.IH[OF _ dist Cons.prems(3) c0 Cons.prems(5)] Cons.prems(1) by simp
    ultimately show ?thesis
      by (simp add: flattenForest_Cons)
  qed
qed

lemma wfNode_shape:
  assumes "wfNode rt p l n"
  shows "n = (if l = 1 then
            TaskData (td_row n) (toString (id_t (td_row n)))
              (safeJsonParse rt (JStr (estPrevHours (td_row n))) (JArr []))
              (safeJsonParse rt (JStr (info (td_row n))) (JObj []))
              (children n) None None
          else if l = 2 then
            TaskData (td_row n) (toString (id_t (td_row n)))
              (safeJsonParse rt (JStr (estPrevHours (td_row n))) (JArr []))
              (safeJsonParse rt (JStr (info (td_row n))) (JObj []))
              [] (Some (children n)) None
          else if l = 3 then
            TaskData (td_row n) (toString (id_t (td_row n)))
              (safeJsonParse rt (JStr (estPrevHours (td_row n))) (JArr []))
              (safeJsonParse rt (JStr (info (td_row n))) (JObj []))
              [] None (Some (children n))
          else
            TaskData (td_row n) (toString (id_t (td_row n)))
              (safeJsonParse rt (JStr (estPrevHours (td_row n))) (JArr []))
              (safeJsonParse rt (JStr (info (td_row n))) (JObj []))
              [] None None)"
    and "l = 4 \<Longrightarrow> children n = []"
    and "l = 1 \<or> l = 2 \<or> l = 3 \<or> l = 4"
  using assms by (cases n; auto split: if_splits option.splits)+

lemma buildNode_rebuilds:
  "wfNode rt p l n \<Longrightarrow> distinct (map id_t (flatten n)) \<Longrightarrow>
   (\<And>q k. l < k \<Longrightarrow> q \<in> id_t ` set (flatten n) \<Longrightarrow>
      filter (sel q k) allTasks = filter (sel q k) (flatten n)) \<Longrightarrow>
   buildNode rt allTasks l (td_row n) = n"
proof (induction n arbitrary: p l rule: children_induct)
  case (node n)
  let ?r = "td_row n" and ?cs = "children n"
  have ch: "wfNode rt (id_t ?r) (l + 1) c" if "c \<in> set ?cs" for c
    using wfNode_children[OF node.prems(1) that] .
  have dist: "distinct (map id_t (flattenForest ?cs))"
    using node.prems(2) by (subst (asm) flatten_children) simp
  have below: "filter (sel q k) (flatten n) = filter (sel q k) (flattenForest ?cs)" if "l < k" for q k
    using wfNode_row[OF node.prems(1)] that by (subst flatten_children) simp
  have "filter (sel (id_t ?r) (l + 1)) allTasks = filter (sel (id_t ?r) (l + 1)) (flatten n)"
    by (rule node.prems(3)) (simp, subst flatten_children, simp)
  also have "\<dots> = filter (sel (id_t ?r) (l + 1)) (flattenForest ?cs)"
    by (rule below) simp
  also have "\<dots> = map td_row ?cs"
    using filter_forest_same[of ?cs rt "id_t ?r" "l + 1" "id_t ?r"] ch by simp
  finally have rows: "filter (sel (id_t ?r) (l + 1)) allTasks = map td_row ?cs" .
  have each: "buildNode rt allTasks (l + 1) (td_row c) = c" if c: "c \<in> set ?cs" for c
  proof (rule node.IH[OF c ch[OF c]])
    have "distinct (map id_t (concat (map flatten ?cs)))"
      using dist by (simp add: flattenForest_def)
    then have "distinct (concat (map (map id_t \<circ> flatten) ?cs))"
      by (simp add: map_concat)
    then show "distinct (map id_t (flatten c))"
      using c by (auto simp: distinct_concat_iff)
  next
    fix q k assume k: "l + 1 < k" and q: "q \<in> id_t ` set (flatten c)"
    have qn: "q \<in> id_t ` set (flatten n)"
      using q flatten_child[OF c] by blast
    have "filter (sel q k) allTasks = filter (sel q k) (flatten n)"
      by (rule node.prems(3)[OF _ qn]) (use k in simp)
    also have "\<dots> = filter (sel q k) (flattenForest ?cs)"
      by (rule below) (use k in simp)
    also have "\<dots> = filter (sel q k) (flatten c)"
      using filter_forest_member[of ?cs rt "id_t ?r" "l + 1" k c q] ch dist k c q by simp
    finally show "filter (sel q k) allTasks = filter (sel q k) (flatten c)" .
  qed
  have kids: "buildTaskHierarchy rt allTasks (id_t ?r) (l + 1) = ?cs"
    unfolding buildTaskHierarchy_nodes rows using each by (simp add: map_idI)
  from wfNode_shape(3)[OF node.prems(1)] show ?case
  proof (elim disjE)
    assume "l = 1"
    with kids wfNode_shape(1)[OF node.prems(1)] show ?thesis
      by (simp add: buildNode_def)
  next
    assume "l = 2"
    with kids wfNode_shape(1)[OF node.prems(1)] show ?thesis
      by (simp add: buildNode_def)
  next
    assume "l = 3"
    with kids wfNode_shape(1)[OF node.prems(1)] show ?thesis
      by (simp add: buildNode_def)
  next
    assume "l = 4"
    with wfNode_shape(1)[OF node.prems(1)] show ?thesis
      by (simp add: buildNode_def)
  qed
qed

text \<open>
  C5. For a well-formed forest of at most four levels, building the hierarchy from its
  flattened rows gives the forest back.
\<close>

theorem buildTaskHierarchy_flatten:
  assumes "wellFormed rt forest"
  shows "buildTaskHierarchy rt (flattenForest forest) 0 1 = forest"
proof -
  from assms have wf: "\<And>n. n \<in> set forest \<Longrightarrow> wfNode rt 0 1 n"
    and dist: "distinct (map id_t (flattenForest forest))"
    by (simp_all add: wellFormed_def list_all_iff)
  have rows: "filter (sel 0 1) (flattenForest forest) = map td_row forest"
    using filter_forest_same[of forest rt 0 1 0] wf by simp
  have "buildNode rt (flattenForest forest) 1 (td_row n) = n" if n: "n \<in> set forest" for n
  proof (rule buildNode_rebuilds[OF wf[OF n]])
    have "distinct (concat (map (map id_t \<circ> flatten) forest))"
      using dist by (simp add: flattenForest_def map_concat)
    then show "distinct (map id_t (flatten n))"
      using n by (auto simp: distinct_concat_iff)
  next
    fix q k :: int assume "1 < k" and "q \<in> id_t ` set (flatten n)"
    then show "filter (sel q k) (flattenForest forest) = filter (sel q k) (flatten n)"
      using filter_forest_member[of forest rt 0 1 k n q] wf dist n by simp
  qed
  then show ?thesis
    unfolding buildTaskHierarchy_nodes rows by (simp add: map_idI)
qed


lemma ex_forest_rows:
  "flattenForest exForest =
     [exRow 1 1 0 (1, 0, 0, 0), exRow 2 2 1 (1, 2, 0, 0), exRow 3 3 2 (1, 2, 3, 0),
      exRow 4 4 3 (1, 2, 3, 4), exRow 5 3 2 (1, 2, 5, 0), exRow 6 2 1 (1, 6, 0, 0),
      exRow 7 1 0 (7, 0, 0, 0)]"
  by (simp add: exForest_def exNode_def flattenForest_def)

lemma ex_forest_wellFormed:
  "wellFormed exRuntime exForest"
  unfolding wellFormed_def ex_forest_rows
  by (simp add: exForest_def exNode_def exRow_def exRuntime_def exParse_def safeJsonParse_def
      trim_def isWhite_def)

theorem buildTaskHierarchy_flatten_witness:
  "wellFormed exRuntime exForest \<and>
   buildTaskHierarchy exRuntime
     [exRow 1 1 0 (1, 0, 0, 0), exRow 2 2 1 (1, 2, 0, 0), exRow 3 3 2 (1, 2, 3, 0),
      exRow 4 4 3 (1, 2, 3, 4), exRow 5 3 2 (1, 2, 5, 0), exRow 6 2 1 (1, 6, 0, 0),
      exRow 7 1 0 (7, 0, 0, 0)] 0 1 = exForest"
  using buildTaskHierarchy_flatten [OF ex_forest_wellFormed] ex_forest_wellFormed
  by (simp add: ex_forest_rows)

end
